theory Spec2Isabelle
  imports Main "HOL-Library.Word" "HOL-Library.Sublist" "HOL-Library.List_Lexorder"
    "HOL-Library.Char_ord"
begin

section \<open>Data model of \<^verbatim>\<open>src/fs.js\<close>\<close>

text \<open>
  A JavaScript string is modelled by \<^typ>\<open>string\<close>; the separator \<^verbatim>\<open>/\<close> is one
  character, which is all the path functions look at. A binary payload (an
  \<^verbatim>\<open>ArrayBuffer\<close>) is a list of bytes. One row of the table \<^verbatim>\<open>files\<close> is a record
  with the columns of \<^verbatim>\<open>initTables\<close>; a \<^verbatim>\<open>NULL\<close> column is \<^const>\<open>None\<close>. The column
  \<^verbatim>\<open>size\<close> is called \<open>size_bytes\<close> here, since \<open>size\<close> is a constant of HOL.
\<close>

type_synonym byte = "8 word"

datatype ftype = File | Directory

record row =
  path :: string
  parent_path :: "string option"
  name :: string
  type :: ftype
  content :: "byte list option"
  size_bytes :: nat
  mode :: nat
  uid :: nat
  gid :: nat
  mtime :: nat
  ctime :: nat
  atime :: nat

text \<open>
  The table of one Durable Object, in rowid order: \<^verbatim>\<open>INSERT\<close> appends, \<^verbatim>\<open>UPDATE\<close>
  rewrites in place, and a \<^verbatim>\<open>SELECT\<close> without \<^verbatim>\<open>ORDER BY\<close> scans in this order.
\<close>

type_synonym store = "row list"

text \<open>Every \<^verbatim>\<open>throw new Error(...)\<close> of the source, and the two failures of the runtime
  the model can reach: the primary key of \<^verbatim>\<open>files\<close> and an unknown text encoding.\<close>

datatype error =
    SourceFileNotFound                \<comment> \<open>"Source file not found"\<close>
  | DestinationDirectoryDoesNotExist  \<comment> \<open>"Destination directory does not exist"\<close>
  | SourceDoesNotExist                \<comment> \<open>"Source does not exist"\<close>
  | CannotCopyDirectory               \<comment> \<open>"Cannot copy directory without recursive option"\<close>
  | FileExistsNotDirectory            \<comment> \<open>"File exists and is not a directory"\<close>
  | ParentDirectoryDoesNotExist       \<comment> \<open>"Parent directory does not exist"\<close>
  | ParentIsNotADirectory             \<comment> \<open>"Parent is not a directory"\<close>
  | DirectoryDoesNotExist             \<comment> \<open>"Directory does not exist"\<close>
  | NotADirectory                     \<comment> \<open>"Not a directory"\<close>
  | FileDoesNotExist                  \<comment> \<open>"File does not exist"\<close>
  | NotAFile                          \<comment> \<open>"Not a file"\<close>
  | DirectoryNotEmpty                 \<comment> \<open>"Directory not empty"\<close>
  | UnsupportedDataType               \<comment> \<open>"Unsupported data type"\<close>
  | UniqueConstraintFailed            \<comment> \<open>SQLite: UNIQUE constraint failed: files.path\<close>
  | UnknownEncoding                   \<comment> \<open>\<^verbatim>\<open>new TextDecoder(label)\<close> refuses the label\<close>

text \<open>A method of the class returns its outcome together with the table it leaves behind,
  also when it throws.\<close>

type_synonym 'a result = "(error + 'a) \<times> store"

section \<open>Path utility\<close>

text \<open>\<^verbatim>\<open>path.replace(/\/+$/, "")\<close>: the run of separators at the end is removed.\<close>

definition strip_trailing_slashes :: "string \<Rightarrow> string" where
  "strip_trailing_slashes p = rev (dropWhile (\<lambda>c. c = CHR ''/'') (rev p))"

text \<open>\<^verbatim>\<open>.replace(/\/+/g, "/")\<close>: every run of separators becomes one separator.\<close>

fun collapse_slashes :: "string \<Rightarrow> string" where
  "collapse_slashes [] = []"
| "collapse_slashes [c] = [c]"
| "collapse_slashes (a # b # cs) =
     (if a = CHR ''/'' \<and> b = CHR ''/'' then collapse_slashes (b # cs)
      else a # collapse_slashes (b # cs))"

definition normalizePath :: "string \<Rightarrow> string" where
  "normalizePath p =
     (if p = ''/'' then ''/'' else collapse_slashes (strip_trailing_slashes p))"

text \<open>\<^verbatim>\<open>s.lastIndexOf(c)\<close>, with \<^const>\<open>None\<close> for the result -1.\<close>

definition lastIndexOf :: "string \<Rightarrow> char \<Rightarrow> nat option" where
  "lastIndexOf s c =
     (if c \<in> set s then Some (length s - Suc (length (takeWhile (\<lambda>x. x \<noteq> c) (rev s))))
      else None)"

text \<open>\<^verbatim>\<open>getParentPath\<close> returns \<^verbatim>\<open>null\<close> for the root only.\<close>

definition getParentPath :: "string \<Rightarrow> string option" where
  "getParentPath p =
     (let normalized = normalizePath p in
      if normalized = ''/'' then None
      else (case lastIndexOf normalized (CHR ''/'') of
              None \<Rightarrow> Some ''/''
            | Some lastSlash \<Rightarrow>
                if lastSlash = 0 then Some ''/'' else Some (take lastSlash normalized)))"

definition getFileName :: "string \<Rightarrow> string" where
  "getFileName p =
     (let normalized = normalizePath p in
      if normalized = ''/'' then []
      else (case lastIndexOf normalized (CHR ''/'') of
              None \<Rightarrow> normalized
            | Some lastSlash \<Rightarrow> drop (Suc lastSlash) normalized))"

text \<open>The guard \<^verbatim>\<open>if (parentPath && parentPath !== "/")\<close>: \<^verbatim>\<open>null\<close> and the empty
  string are falsy. It yields the parent that has to be looked up, if any.\<close>

definition parent_to_check :: "string option \<Rightarrow> string option" where
  "parent_to_check parentPath =
     (case parentPath of
        None \<Rightarrow> None
      | Some pp \<Rightarrow> if pp = [] \<or> pp = ''/'' then None else Some pp)"

section \<open>The statements sent to SQLite\<close>

text \<open>\<^verbatim>\<open>SELECT * FROM files WHERE path = ?\<close> followed by \<^verbatim>\<open>.toArray()[0]\<close>.\<close>

definition select_path :: "store \<Rightarrow> string \<Rightarrow> row option" where
  "select_path s p = find (\<lambda>r. path r = p) s"

text \<open>\<^verbatim>\<open>SELECT * FROM files WHERE parent_path = ?\<close>; a \<^verbatim>\<open>NULL\<close> parent matches nothing.\<close>

definition select_children :: "store \<Rightarrow> string \<Rightarrow> row list" where
  "select_children s p = filter (\<lambda>r. parent_path r = Some p) s"

text \<open>\<^verbatim>\<open>INSERT INTO files ...\<close>: the primary key refuses a second row with the path.\<close>

definition insert_row :: "store \<Rightarrow> row \<Rightarrow> error + store" where
  "insert_row s r =
     (if path r \<in> set (map path s) then Inl UniqueConstraintFailed else Inr (s @ [r]))"

text \<open>\<^verbatim>\<open>INSERT OR REPLACE INTO files ...\<close>: a row with the path is deleted first.\<close>

definition insert_or_replace :: "store \<Rightarrow> row \<Rightarrow> store" where
  "insert_or_replace s r = filter (\<lambda>x. path x \<noteq> path r) s @ [r]"

text \<open>\<^verbatim>\<open>UPDATE files SET ... WHERE path = ?\<close> for assignments that leave the key alone.\<close>

definition update_where_path :: "store \<Rightarrow> string \<Rightarrow> (row \<Rightarrow> row) \<Rightarrow> store" where
  "update_where_path s p f = map (\<lambda>r. if path r = p then f r else r) s"

text \<open>\<^verbatim>\<open>UPDATE files SET path = ?, ... WHERE path = ?\<close>: when a row is hit and its new
  key belongs to another row, the statement fails and changes nothing.\<close>

definition update_path :: "store \<Rightarrow> string \<Rightarrow> string \<Rightarrow> (row \<Rightarrow> row) \<Rightarrow> error + store" where
  "update_path s old new f =
     (if select_path s old = None then Inr s
      else if new \<noteq> old \<and> select_path s new \<noteq> None then Inl UniqueConstraintFailed
      else Inr (map (\<lambda>r. if path r = old then (f r)\<lparr>path := new\<rparr> else r) s))"

text \<open>\<^verbatim>\<open>DELETE FROM files WHERE path = ?\<close>.\<close>

definition delete_path :: "store \<Rightarrow> string \<Rightarrow> store" where
  "delete_path s p = filter (\<lambda>r. path r \<noteq> p) s"

section \<open>Tree Store: \<^verbatim>\<open>stat\<close>, \<^verbatim>\<open>readFileBuffer\<close>, \<^verbatim>\<open>writeFileBuffer\<close>\<close>

text \<open>The object \<^verbatim>\<open>stat\<close> returns; a \<^verbatim>\<open>Date\<close> is its number of milliseconds.\<close>

record stats =
  isFile :: bool
  isDirectory :: bool
  isSymbolicLink :: bool
  st_size :: nat
  st_mode :: nat
  st_uid :: nat
  st_gid :: nat
  st_mtime :: nat
  st_ctime :: nat
  st_atime :: nat

definition DOFS_stat :: "store \<Rightarrow> string \<Rightarrow> stats result" where
  "DOFS_stat s p =
     (case select_path s p of
        None \<Rightarrow> (Inl FileDoesNotExist, s)
      | Some file \<Rightarrow>
          (Inr \<lparr> isFile = (type file = File), isDirectory = (type file = Directory),
                 isSymbolicLink = False, st_size = size_bytes file, st_mode = mode file,
                 st_uid = uid file, st_gid = gid file, st_mtime = mtime file * 1000,
                 st_ctime = ctime file * 1000, st_atime = atime file * 1000 \<rparr>, s))"

text \<open>\<^verbatim>\<open>readFileBuffer(path)\<close>; \<open>now\<close> is \<^verbatim>\<open>Math.floor(Date.now() / 1000)\<close>.\<close>

definition DOFS_readFileBuffer :: "store \<Rightarrow> string \<Rightarrow> nat \<Rightarrow> byte list result" where
  "DOFS_readFileBuffer s p now =
     (case select_path s p of
        None \<Rightarrow> (Inl FileDoesNotExist, s)
      | Some file \<Rightarrow>
          if type file \<noteq> File then (Inl NotAFile, s)
          else (Inr (case content file of None \<Rightarrow> [] | Some b \<Rightarrow> b),
                update_where_path s p (\<lambda>r. r\<lparr>atime := now\<rparr>)))"

text \<open>\<^verbatim>\<open>options.mode || dflt\<close>: a missing mode and the mode 0 both give the default.\<close>

definition mode_or :: "nat option \<Rightarrow> nat \<Rightarrow> nat" where
  "mode_or m dflt = (case m of None \<Rightarrow> dflt | Some v \<Rightarrow> if v = 0 then dflt else v)"

text \<open>The test \<^verbatim>\<open>!parent || parent.type !== "directory"\<close> behind the guard on the
  parent path, as \<^verbatim>\<open>copyFile\<close>, \<^verbatim>\<open>rename\<close> and \<^verbatim>\<open>writeFileBuffer\<close> make it.\<close>

definition parent_not_directory :: "store \<Rightarrow> string option \<Rightarrow> bool" where
  "parent_not_directory s parentPath =
     (case parent_to_check parentPath of
        None \<Rightarrow> False
      | Some pp \<Rightarrow>
          (case select_path s pp of
             None \<Rightarrow> True
           | Some parent \<Rightarrow> type parent \<noteq> Directory))"

text \<open>\<^verbatim>\<open>writeFileBuffer(path, data, options)\<close>. \<open>buffer\<close> is the \<^verbatim>\<open>ArrayBuffer\<close> the
  method computes from \<^verbatim>\<open>data\<close> (the buffer itself, or the bytes a \<^verbatim>\<open>Uint8Array\<close>
  views); \<open>omode\<close> is \<^verbatim>\<open>options.mode\<close>. 438 is \<^verbatim>\<open>0o666\<close>.\<close>

definition DOFS_writeFileBuffer ::
  "store \<Rightarrow> string \<Rightarrow> byte list \<Rightarrow> nat option \<Rightarrow> nat \<Rightarrow> unit result" where
  "DOFS_writeFileBuffer s p buffer omode now =
     (let normalizedPath = normalizePath p;
          parentPath = getParentPath normalizedPath
      in if parent_not_directory s parentPath then (Inl ParentDirectoryDoesNotExist, s)
         else
           (let sz = length buffer;
                md = mode_or omode 438
            in case select_path s normalizedPath of
                 Some existing \<Rightarrow>
                   (Inr (),
                    update_where_path s normalizedPath
                      (\<lambda>r. r\<lparr>content := Some buffer, size_bytes := sz, mode := md,
                              mtime := now, atime := now\<rparr>))
               | None \<Rightarrow>
                   (case insert_row s
                           \<lparr> path = normalizedPath, parent_path = parentPath,
                             name = getFileName normalizedPath, type = File,
                             content = Some buffer, size_bytes = sz, mode = md,
                             uid = 0, gid = 0, mtime = now, ctime = now, atime = now \<rparr> of
                      Inl e \<Rightarrow> (Inl e, s)
                    | Inr s' \<Rightarrow> (Inr (), s'))))"

text \<open>\<^verbatim>\<open>writeFile(path, data, options)\<close>. The data is a string, an \<^verbatim>\<open>ArrayBuffer\<close>, a
  \<^verbatim>\<open>Uint8Array\<close> (given by the bytes it views) or anything else; the options are absent,
  an encoding name, or an object with the fields \<^verbatim>\<open>encoding\<close> and \<^verbatim>\<open>mode\<close>.
  \<open>encode\<close> stands for \<^verbatim>\<open>new TextEncoder().encode\<close>, which the runtime provides.\<close>

datatype data = StringData string | ArrayBufferData "byte list" | Uint8ArrayData "byte list"
  | OtherData

datatype write_options = NoWriteOptions | WriteEncoding string
  | WriteOptions "string option" "nat option"

fun write_mode :: "write_options \<Rightarrow> nat option" where
  "write_mode NoWriteOptions = None"
| "write_mode (WriteEncoding enc) = None"
| "write_mode (WriteOptions enc m) = m"

definition DOFS_writeFile ::
  "(string \<Rightarrow> byte list) \<Rightarrow> store \<Rightarrow> string \<Rightarrow> data \<Rightarrow> write_options \<Rightarrow> nat \<Rightarrow> unit result" where
  "DOFS_writeFile encode s p d options now =
     (case d of
        StringData str \<Rightarrow> DOFS_writeFileBuffer s p (encode str) (write_mode options) now
      | ArrayBufferData b \<Rightarrow> DOFS_writeFileBuffer s p b (write_mode options) now
      | Uint8ArrayData b \<Rightarrow> DOFS_writeFileBuffer s p b (write_mode options) now
      | OtherData \<Rightarrow> (Inl UnsupportedDataType, s))"

text \<open>\<^verbatim>\<open>readFile(path, options)\<close>: without a (truthy) encoding the buffer is returned as
  it is. \<open>decode\<close> stands for \<^verbatim>\<open>new TextDecoder(encoding).decode\<close>.\<close>

datatype read_options = NoReadOptions | ReadEncoding string | ReadOptions "string option"

datatype file_data = Buffer "byte list" | Text string

fun read_encoding :: "read_options \<Rightarrow> string option" where
  "read_encoding NoReadOptions = None"
| "read_encoding (ReadEncoding enc) = (if enc = [] then None else Some enc)"
| "read_encoding (ReadOptions None) = None"
| "read_encoding (ReadOptions (Some enc)) = (if enc = [] then None else Some enc)"

definition DOFS_readFile ::
  "(string \<Rightarrow> byte list \<Rightarrow> error + string) \<Rightarrow> store \<Rightarrow> string \<Rightarrow> read_options \<Rightarrow> nat
     \<Rightarrow> file_data result" where
  "DOFS_readFile decode s p options now =
     (case DOFS_readFileBuffer s p now of
        (Inl e, s') \<Rightarrow> (Inl e, s')
      | (Inr buffer, s') \<Rightarrow>
          (case read_encoding options of
             None \<Rightarrow> (Inr (Buffer buffer), s')
           | Some enc \<Rightarrow>
               (case decode enc buffer of
                  Inl e \<Rightarrow> (Inl e, s')
                | Inr txt \<Rightarrow> (Inr (Text txt), s'))))"

section \<open>Tree Store: \<^verbatim>\<open>mkdir\<close>, \<^verbatim>\<open>readdir\<close>, \<^verbatim>\<open>copyFile\<close>, \<^verbatim>\<open>cp\<close>, \<^verbatim>\<open>rm\<close>\<close>

lemma length_collapse_slashes: "length (collapse_slashes p) \<le> length p"
  by (induction p rule: collapse_slashes.induct) auto

lemma length_strip_trailing_slashes: "length (strip_trailing_slashes p) \<le> length p"
  unfolding strip_trailing_slashes_def
  using length_dropWhile_le [of "\<lambda>c. c = CHR ''/''" "rev p"] by simp

lemma length_normalizePath: "length (normalizePath p) \<le> length p"
  unfolding normalizePath_def
  using length_collapse_slashes [of "strip_trailing_slashes p"]
    length_strip_trailing_slashes [of p]
  by auto

lemma lastIndexOf_less: "lastIndexOf s c = Some i \<Longrightarrow> i < length s"
  by (auto simp: lastIndexOf_def split: if_splits) (cases s; simp)

lemma parent_to_check_shorter:
  assumes "parent_to_check (getParentPath p) = Some pp"
  shows "length (normalizePath pp) < length (normalizePath p)"
proof -
  from assms obtain i where i: "lastIndexOf (normalizePath p) (CHR ''/'') = Some i"
    and pp: "pp = take i (normalizePath p)"
    by (auto simp: parent_to_check_def getParentPath_def Let_def
        split: option.splits if_splits)
  have "length pp \<le> i" using pp by simp
  moreover have "i < length (normalizePath p)" using i by (rule lastIndexOf_less)
  moreover have "length (normalizePath pp) \<le> length pp" by (rule length_normalizePath)
  ultimately show ?thesis by linarith
qed

text \<open>\<^verbatim>\<open>mkdir(path, options)\<close> with \<open>recursive\<close> for \<^verbatim>\<open>options.recursive\<close> and \<open>omode\<close>
  for \<^verbatim>\<open>options.mode\<close>; 511 is \<^verbatim>\<open>0o777\<close>. The recursive call is on the parent path, whose
  normal form is shorter. It returns the first directory created, or nothing.\<close>

function DOFS_mkdir ::
  "store \<Rightarrow> string \<Rightarrow> bool \<Rightarrow> nat option \<Rightarrow> nat \<Rightarrow> string option result" where
  "DOFS_mkdir s p recursive omode now =
     (let normalizedPath = normalizePath p in
      case select_path s normalizedPath of
        Some existing \<Rightarrow>
          if type existing = Directory then (Inr None, s)
          else (Inl FileExistsNotDirectory, s)
      | None \<Rightarrow>
          (let parentPath = getParentPath normalizedPath;
               checked =
                 (case parent_to_check parentPath of
                    None \<Rightarrow> (Inr None, s)
                  | Some pp \<Rightarrow>
                      (case select_path s pp of
                         None \<Rightarrow>
                           if recursive then DOFS_mkdir s pp recursive omode now
                           else (Inl ParentDirectoryDoesNotExist, s)
                       | Some parent \<Rightarrow>
                           if type parent \<noteq> Directory then (Inl ParentIsNotADirectory, s)
                           else (Inr None, s)))
           in case checked of
                (Inl e, s1) \<Rightarrow> (Inl e, s1)
              | (Inr firstCreated, s1) \<Rightarrow>
                  (case insert_row s1
                          \<lparr> path = normalizedPath, parent_path = parentPath,
                            name = getFileName normalizedPath, type = Directory,
                            content = None, size_bytes = 0, mode = mode_or omode 511,
                            uid = 0, gid = 0, mtime = now, ctime = now, atime = now \<rparr> of
                     Inl e \<Rightarrow> (Inl e, s1)
                   | Inr s2 \<Rightarrow>
                       (Inr (Some (case firstCreated of
                                     None \<Rightarrow> normalizedPath
                                   | Some fc \<Rightarrow> if fc = [] then normalizedPath else fc)),
                        s2))))"
  by pat_completeness auto
termination
proof (relation "measure (\<lambda>(s, p, recursive, omode, now). length (normalizePath p))")
  show "wf (measure (\<lambda>(s, p, recursive, omode, now). length (normalizePath p)))" by simp
next
  fix s :: store and p :: string and recursive :: bool and omode :: "nat option"
    and now :: nat and x xa x2
  assume "x = normalizePath p" and "xa = getParentPath x" and "parent_to_check xa = Some x2"
  then have "length (normalizePath x2) < length (normalizePath x)"
    using parent_to_check_shorter [of x x2] by simp
  moreover have "length (normalizePath x) \<le> length (normalizePath p)"
    using \<open>x = normalizePath p\<close> length_normalizePath [of "normalizePath p"] by simp
  ultimately show "((s, x2, recursive, omode, now), s, p, recursive, omode, now)
      \<in> measure (\<lambda>(s, p, recursive, omode, now). length (normalizePath p))"
    by simp
qed

declare DOFS_mkdir.simps [simp del]

text \<open>\<^verbatim>\<open>readdir(path, options)\<close>: the children in the order of \<^verbatim>\<open>ORDER BY name\<close>, as
  names or, with \<^verbatim>\<open>withFileTypes\<close>, as names with their types.\<close>

datatype dir_entries = Names "string list" | Dirents "(string \<times> ftype) list"

definition DOFS_readdir :: "store \<Rightarrow> string \<Rightarrow> bool \<Rightarrow> dir_entries result" where
  "DOFS_readdir s p withFileTypes =
     (let normalizedPath = normalizePath p in
      case select_path s normalizedPath of
        None \<Rightarrow> (Inl DirectoryDoesNotExist, s)
      | Some dir \<Rightarrow>
          if type dir \<noteq> Directory then (Inl NotADirectory, s)
          else (let entries = sort_key name (select_children s normalizedPath) in
                (Inr (if withFileTypes then Dirents (map (\<lambda>e. (name e, type e)) entries)
                      else Names (map name entries)), s)))"

text \<open>\<^verbatim>\<open>copyFile(src, dest, mode)\<close> of the class; the argument \<^verbatim>\<open>mode\<close> is not used.\<close>

definition DOFS_copyFile :: "store \<Rightarrow> string \<Rightarrow> string \<Rightarrow> nat \<Rightarrow> nat \<Rightarrow> unit result" where
  "DOFS_copyFile s src dest cmode now =
     (case select_path s src of
        None \<Rightarrow> (Inl SourceFileNotFound, s)
      | Some srcFile \<Rightarrow>
          if type srcFile \<noteq> File then (Inl SourceFileNotFound, s)
          else
            (let destParent = getParentPath dest in
             if parent_not_directory s destParent
             then (Inl DestinationDirectoryDoesNotExist, s)
             else (Inr (),
                   insert_or_replace s
                     \<lparr> path = dest, parent_path = destParent, name = getFileName dest,
                       type = File, content = content srcFile,
                       size_bytes = size_bytes srcFile, mode = mode srcFile,
                       uid = uid srcFile, gid = gid srcFile,
                       mtime = now, ctime = now, atime = now \<rparr>)))"

text \<open>\<^verbatim>\<open>cp(src, dest, options)\<close> of the class, with \<open>recursive\<close> for \<^verbatim>\<open>options.recursive\<close>.
  Copying a directory into itself never ends, so the depth of the nested calls is bounded
  by a fuel, and \<^const>\<open>None\<close> says that the fuel ran out.\<close>

fun DOFS_cp :: "nat \<Rightarrow> store \<Rightarrow> string \<Rightarrow> string \<Rightarrow> bool \<Rightarrow> nat \<Rightarrow> unit result option"
  and DOFS_cp_children ::
    "nat \<Rightarrow> store \<Rightarrow> row list \<Rightarrow> string \<Rightarrow> bool \<Rightarrow> nat \<Rightarrow> unit result option" where
  "DOFS_cp 0 s src dest recursive now = None"
| "DOFS_cp (Suc k) s src dest recursive now =
     (case select_path s src of
        None \<Rightarrow> Some (Inl SourceDoesNotExist, s)
      | Some srcFile \<Rightarrow>
          (case type srcFile of
             File \<Rightarrow> Some (DOFS_copyFile s src dest 0 now)
           | Directory \<Rightarrow>
               if \<not> recursive then Some (Inl CannotCopyDirectory, s)
               else
                 (case DOFS_mkdir s dest True None now of
                    (Inl e, s1) \<Rightarrow> Some (Inl e, s1)
                  | (Inr created, s1) \<Rightarrow>
                      DOFS_cp_children k s1 (select_children s1 src) dest recursive now)))"
| "DOFS_cp_children k s [] dest recursive now = Some (Inr (), s)"
| "DOFS_cp_children k s (child # children) dest recursive now =
     (case DOFS_cp k s (path child) (dest @ ''/'' @ name child) recursive now of
        None \<Rightarrow> None
      | Some (Inl e, s1) \<Rightarrow> Some (Inl e, s1)
      | Some (Inr u, s1) \<Rightarrow> DOFS_cp_children k s1 children dest recursive now)"

section \<open>Tree Store: \<^verbatim>\<open>rename\<close> and \<^verbatim>\<open>rm\<close>\<close>

text \<open>SQLite's \<^verbatim>\<open>LIKE\<close> with its defaults: \<^verbatim>\<open>%\<close> matches any run of characters,
  \<^verbatim>\<open>_\<close> any one character, and ASCII letters match in either case. The first argument
  is the pattern.\<close>

definition to_lower :: "char \<Rightarrow> char" where
  "to_lower c =
     (case map_of (zip ''ABCDEFGHIJKLMNOPQRSTUVWXYZ'' ''abcdefghijklmnopqrstuvwxyz'') c of
        None \<Rightarrow> c
      | Some l \<Rightarrow> l)"

fun sql_like :: "string \<Rightarrow> string \<Rightarrow> bool" where
  "sql_like [] [] = True"
| "sql_like [] (c # cs) = False"
| "sql_like (p # ps) [] = (p = CHR ''%'' \<and> sql_like ps [])"
| "sql_like (p # ps) (c # cs) =
     (if p = CHR ''%'' then sql_like ps (c # cs) \<or> sql_like (p # ps) cs
      else (p = CHR ''_'' \<or> to_lower p = to_lower c) \<and> sql_like ps cs)"

text \<open>\<^verbatim>\<open>SELECT * FROM files WHERE path LIKE ?\<close> and \<^verbatim>\<open>DELETE FROM files WHERE path LIKE ?\<close>.\<close>

definition select_like :: "store \<Rightarrow> string \<Rightarrow> row list" where
  "select_like s pat = filter (\<lambda>r. sql_like pat (path r)) s"

definition delete_like :: "store \<Rightarrow> string \<Rightarrow> store" where
  "delete_like s pat = filter (\<lambda>r. \<not> sql_like pat (path r)) s"

text \<open>\<^verbatim>\<open>str.replace(pat, repl)\<close> for a string pattern: the first occurrence of the pattern
  is replaced, and in the replacement \<^verbatim>\<open>$$\<close> stands for a dollar sign, \<^verbatim>\<open>$&\<close> for the
  match, \<^verbatim>\<open>$`\<close> for the text before it and \<^verbatim>\<open>$'\<close> for the text after it. A string pattern
  has no groups, so every other character of the replacement stands for itself.
  \<open>first_occurrence\<close> returns the text before and after the first occurrence.\<close>

fun first_occurrence :: "string \<Rightarrow> string \<Rightarrow> (string \<times> string) option" where
  "first_occurrence pat [] = (if pat = [] then Some ([], []) else None)"
| "first_occurrence pat (c # cs) =
     (if prefix pat (c # cs) then Some ([], drop (length pat) (c # cs))
      else map_option (\<lambda>(pre, post). (c # pre, post)) (first_occurrence pat cs))"

fun get_substitution :: "string \<Rightarrow> string \<Rightarrow> string \<Rightarrow> string \<Rightarrow> string" where
  "get_substitution matched pre post [] = []"
| "get_substitution matched pre post [c] = [c]"
| "get_substitution matched pre post (c # d # template) =
     (if c = CHR ''$'' \<and> d = CHR ''$''
        then CHR ''$'' # get_substitution matched pre post template
      else if c = CHR ''$'' \<and> d = CHR ''&''
        then matched @ get_substitution matched pre post template
      else if c = CHR ''$'' \<and> d = CHR 0x60
        then pre @ get_substitution matched pre post template
      else if c = CHR ''$'' \<and> d = CHR 0x27
        then post @ get_substitution matched pre post template
      else c # get_substitution matched pre post (d # template))"

definition js_replace :: "string \<Rightarrow> string \<Rightarrow> string \<Rightarrow> string" where
  "js_replace str pat repl =
     (case first_occurrence pat str of
        None \<Rightarrow> str
      | Some (pre, post) \<Rightarrow> pre @ get_substitution pat pre post repl @ post)"

text \<open>The loop of \<^verbatim>\<open>rename\<close> over the rows selected as children.\<close>

fun rename_children :: "store \<Rightarrow> row list \<Rightarrow> string \<Rightarrow> string \<Rightarrow> unit result" where
  "rename_children s [] normalizedOld normalizedNew = (Inr (), s)"
| "rename_children s (child # children) normalizedOld normalizedNew =
     (let newChildPath = js_replace (path child) normalizedOld normalizedNew;
          newChildParent = getParentPath newChildPath
      in case update_path s (path child) newChildPath
                (\<lambda>r. r\<lparr>parent_path := newChildParent\<rparr>) of
           Inl e \<Rightarrow> (Inl e, s)
         | Inr s1 \<Rightarrow> rename_children s1 children normalizedOld normalizedNew)"

definition DOFS_rename :: "store \<Rightarrow> string \<Rightarrow> string \<Rightarrow> nat \<Rightarrow> unit result" where
  "DOFS_rename s oldPath newPath now =
     (let normalizedOld = normalizePath oldPath;
          normalizedNew = normalizePath newPath
      in case select_path s normalizedOld of
           None \<Rightarrow> (Inl SourceDoesNotExist, s)
         | Some file \<Rightarrow>
             (let newParent = getParentPath normalizedNew in
              if parent_not_directory s newParent
              then (Inl DestinationDirectoryDoesNotExist, s)
              else
                (case update_path s normalizedOld normalizedNew
                        (\<lambda>r. r\<lparr>parent_path := newParent,
                                name := getFileName normalizedNew, mtime := now\<rparr>) of
                   Inl e \<Rightarrow> (Inl e, s)
                 | Inr s1 \<Rightarrow>
                     if type file = Directory
                     then rename_children s1 (select_like s1 (normalizedOld @ ''/%''))
                            normalizedOld normalizedNew
                     else (Inr (), s1))))"

text \<open>\<^verbatim>\<open>rm(path, options)\<close> with \<^verbatim>\<open>options.recursive\<close> and \<^verbatim>\<open>options.force\<close>.\<close>

definition DOFS_rm :: "store \<Rightarrow> string \<Rightarrow> bool \<Rightarrow> bool \<Rightarrow> unit result" where
  "DOFS_rm s p recursive force =
     (let normalizedPath = normalizePath p in
      case select_path s normalizedPath of
        None \<Rightarrow> if force then (Inr (), s) else (Inl FileDoesNotExist, s)
      | Some file \<Rightarrow>
          if type file = Directory then
            (if \<not> recursive then
               (if length (select_children s normalizedPath) > 0
                then (Inl DirectoryNotEmpty, s)
                else (Inr (), delete_path s normalizedPath))
             else (Inr (), delete_path (delete_like s (normalizedPath @ ''/%'')) normalizedPath))
          else (Inr (), delete_path s normalizedPath))"

section \<open>Shard Router and the exported functions\<close>

text \<open>\<^verbatim>\<open>getInstanceName\<close>: the match of \<^verbatim>\<open>/^\/Users\/([^\/]+)/\<close> captures the longest run
  of characters other than the separator after \<^verbatim>\<open>/Users/\<close>, and fails on an empty run.\<close>

definition getInstanceName :: "string \<Rightarrow> string" where
  "getInstanceName p =
     (if prefix ''/Users/'' p then
        (let userMatch = takeWhile (\<lambda>c. c \<noteq> CHR ''/'') (drop 7 p) in
         if userMatch = [] then ''default'' else userMatch)
      else ''default'')"

text \<open>\<^verbatim>\<open>getInstance\<close> asks the runtime for the stub of the Durable Object with that name:
  \<^verbatim>\<open>globalEnv.DOFS.get(globalEnv.DOFS.idFromName(name))\<close>. A stub is given by the name of
  the object it talks to. The exported functions compare two stubs with \<^verbatim>\<open>===\<close>, which
  tells whether the two are one and the same object; whether two calls of \<^verbatim>\<open>get\<close> return
  the same object is up to the runtime, which is not part of the repository. So the
  outcome of \<^verbatim>\<open>===\<close> on two stubs is the parameter \<open>same\<close> of these functions.\<close>

datatype stub = Stub string

definition getInstance :: "string \<Rightarrow> stub" where
  "getInstance p = Stub (getInstanceName p)"

text \<open>All the Durable Objects: the table of each by its name, and the number of method
  calls made so far. The call number \<open>k\<close> finds the clock at \<open>clock k\<close> seconds, so the time
  may move between two calls in any way.\<close>

record world =
  disks :: "string \<Rightarrow> store"
  calls :: nat

definition call ::
  "(nat \<Rightarrow> nat) \<Rightarrow> string \<Rightarrow> (store \<Rightarrow> nat \<Rightarrow> 'a result) \<Rightarrow> world \<Rightarrow> (error + 'a) \<times> world" where
  "call clock n method w =
     (case method (disks w n) (clock (calls w)) of
        (r, s') \<Rightarrow> (r, \<lparr> disks = (disks w)(n := s'), calls = Suc (calls w) \<rparr>))"

text \<open>The same for a method that may not return.\<close>

definition call_partial ::
  "(nat \<Rightarrow> nat) \<Rightarrow> string \<Rightarrow> (store \<Rightarrow> nat \<Rightarrow> 'a result option) \<Rightarrow> world
     \<Rightarrow> ((error + 'a) \<times> world) option" where
  "call_partial clock n method w =
     (case method (disks w n) (clock (calls w)) of
        None \<Rightarrow> None
      | Some (r, s') \<Rightarrow> Some (r, \<lparr> disks = (disks w)(n := s'), calls = Suc (calls w) \<rparr>))"

text \<open>The exported functions of one path.\<close>

definition fs_mkdir ::
  "(nat \<Rightarrow> nat) \<Rightarrow> world \<Rightarrow> string \<Rightarrow> bool \<Rightarrow> nat option \<Rightarrow> (error + string option) \<times> world" where
  "fs_mkdir clock w p recursive omode =
     call clock (getInstanceName p) (\<lambda>s now. DOFS_mkdir s p recursive omode now) w"

definition fs_readdir ::
  "(nat \<Rightarrow> nat) \<Rightarrow> world \<Rightarrow> string \<Rightarrow> bool \<Rightarrow> (error + dir_entries) \<times> world" where
  "fs_readdir clock w p withFileTypes =
     call clock (getInstanceName p) (\<lambda>s now. DOFS_readdir s p withFileTypes) w"

definition fs_readFile ::
  "(string \<Rightarrow> byte list \<Rightarrow> error + string) \<Rightarrow> (nat \<Rightarrow> nat) \<Rightarrow> world \<Rightarrow> string \<Rightarrow> read_options
     \<Rightarrow> (error + file_data) \<times> world" where
  "fs_readFile decode clock w p options =
     call clock (getInstanceName p) (\<lambda>s now. DOFS_readFile decode s p options now) w"

definition fs_rm ::
  "(nat \<Rightarrow> nat) \<Rightarrow> world \<Rightarrow> string \<Rightarrow> bool \<Rightarrow> bool \<Rightarrow> (error + unit) \<times> world" where
  "fs_rm clock w p recursive force =
     call clock (getInstanceName p) (\<lambda>s now. DOFS_rm s p recursive force) w"

definition fs_stat :: "(nat \<Rightarrow> nat) \<Rightarrow> world \<Rightarrow> string \<Rightarrow> (error + stats) \<times> world" where
  "fs_stat clock w p = call clock (getInstanceName p) (\<lambda>s now. DOFS_stat s p) w"

definition fs_writeFile ::
  "(string \<Rightarrow> byte list) \<Rightarrow> (nat \<Rightarrow> nat) \<Rightarrow> world \<Rightarrow> string \<Rightarrow> data \<Rightarrow> write_options
     \<Rightarrow> (error + unit) \<times> world" where
  "fs_writeFile encode clock w p d options =
     call clock (getInstanceName p) (\<lambda>s now. DOFS_writeFile encode s p d options now) w"

text \<open>\<^verbatim>\<open>ensureParentExists(path)\<close>: it normalizes by itself, asks the exported \<^verbatim>\<open>stat\<close>
  for the parent and, when that throws, the exported \<^verbatim>\<open>mkdir\<close> to create it. Both go
  to the Durable Object that the parent path names.\<close>

definition ensureParentExists :: "(nat \<Rightarrow> nat) \<Rightarrow> world \<Rightarrow> string \<Rightarrow> (error + unit) \<times> world" where
  "ensureParentExists clock w p =
     (let normalized = collapse_slashes (strip_trailing_slashes p) in
      if normalized = ''/'' \<or> CHR ''/'' \<notin> set normalized then (Inr (), w)
      else
        (let parentPath =
               (case lastIndexOf normalized (CHR ''/'') of
                  None \<Rightarrow> ''/''
                | Some lastSlash \<Rightarrow>
                    if lastSlash = 0 then ''/'' else take lastSlash normalized)
         in if parentPath = ''/'' then (Inr (), w)
            else
              (case fs_stat clock w parentPath of
                 (Inr st, w1) \<Rightarrow> (Inr (), w1)
               | (Inl e, w1) \<Rightarrow>
                   (case fs_mkdir clock w1 parentPath True None of
                      (Inl e', w2) \<Rightarrow> (Inl e', w2)
                    | (Inr created, w2) \<Rightarrow> (Inr (), w2)))))"

text \<open>The \<^verbatim>\<open>else\<close> branch of the exported \<^verbatim>\<open>copyFile\<close>, for two different stubs.\<close>

definition copyFile_across ::
  "(nat \<Rightarrow> nat) \<Rightarrow> world \<Rightarrow> string \<Rightarrow> string \<Rightarrow> (error + unit) \<times> world" where
  "copyFile_across clock w src dest =
     (case ensureParentExists clock w dest of
        (Inl e, w1) \<Rightarrow> (Inl e, w1)
      | (Inr u, w1) \<Rightarrow>
          (case call clock (getInstanceName src) (\<lambda>s now. DOFS_readFileBuffer s src now) w1 of
             (Inl e, w2) \<Rightarrow> (Inl e, w2)
           | (Inr buf, w2) \<Rightarrow>
               (case call clock (getInstanceName src) (\<lambda>s now. DOFS_stat s src) w2 of
                  (Inl e, w3) \<Rightarrow> (Inl e, w3)
                | (Inr st, w3) \<Rightarrow>
                    call clock (getInstanceName dest)
                      (\<lambda>s now. DOFS_writeFileBuffer s dest buf (Some (st_mode st)) now)
                      w3)))"

definition fs_copyFile ::
  "(stub \<Rightarrow> stub \<Rightarrow> bool) \<Rightarrow> (nat \<Rightarrow> nat) \<Rightarrow> world \<Rightarrow> string \<Rightarrow> string \<Rightarrow> nat \<Rightarrow> (error + unit) \<times> world" where
  "fs_copyFile same clock w src dest cmode =
     (if same (getInstance src) (getInstance dest)
      then call clock (getInstanceName src) (\<lambda>s now. DOFS_copyFile s src dest cmode now) w
      else copyFile_across clock w src dest)"

text \<open>The \<^verbatim>\<open>else\<close> branch of the exported \<^verbatim>\<open>cp\<close>; \<open>self\<close> is the exported \<^verbatim>\<open>cp\<close>
  that the loop over the entries calls again.\<close>

fun entry_names :: "dir_entries \<Rightarrow> string list" where
  "entry_names (Names ns) = ns"
| "entry_names (Dirents ds) = map fst ds"

fun cp_entries ::
  "(world \<Rightarrow> string \<Rightarrow> string \<Rightarrow> ((error + unit) \<times> world) option) \<Rightarrow> world \<Rightarrow> string list
     \<Rightarrow> string \<Rightarrow> string \<Rightarrow> ((error + unit) \<times> world) option" where
  "cp_entries self w [] src dest = Some (Inr (), w)"
| "cp_entries self w (entry # entries) src dest =
     (case self w (src @ ''/'' @ entry) (dest @ ''/'' @ entry) of
        None \<Rightarrow> None
      | Some (Inl e, w1) \<Rightarrow> Some (Inl e, w1)
      | Some (Inr u, w1) \<Rightarrow> cp_entries self w1 entries src dest)"

definition cp_across ::
  "(nat \<Rightarrow> nat) \<Rightarrow> (world \<Rightarrow> string \<Rightarrow> string \<Rightarrow> ((error + unit) \<times> world) option) \<Rightarrow> world
     \<Rightarrow> string \<Rightarrow> string \<Rightarrow> bool \<Rightarrow> ((error + unit) \<times> world) option" where
  "cp_across clock self w src dest recursive =
     (case call clock (getInstanceName src) (\<lambda>s now. DOFS_stat s src) w of
        (Inl e, w1) \<Rightarrow> Some (Inl e, w1)
      | (Inr st, w1) \<Rightarrow>
          if isDirectory st then
            (if \<not> recursive then Some (Inl CannotCopyDirectory, w1)
             else
               (case fs_mkdir clock w1 dest True None of
                  (Inl e, w2) \<Rightarrow> Some (Inl e, w2)
                | (Inr created, w2) \<Rightarrow>
                    (case call clock (getInstanceName src)
                            (\<lambda>s now. DOFS_readdir s src False) w2 of
                       (Inl e, w3) \<Rightarrow> Some (Inl e, w3)
                     | (Inr entries, w3) \<Rightarrow>
                         cp_entries self w3 (entry_names entries) src dest)))
          else
            (case ensureParentExists clock w1 dest of
               (Inl e, w2) \<Rightarrow> Some (Inl e, w2)
             | (Inr u, w2) \<Rightarrow>
                 (case call clock (getInstanceName src)
                         (\<lambda>s now. DOFS_readFileBuffer s src now) w2 of
                    (Inl e, w3) \<Rightarrow> Some (Inl e, w3)
                  | (Inr buf, w3) \<Rightarrow>
                      Some (call clock (getInstanceName dest)
                              (\<lambda>s now. DOFS_writeFileBuffer s dest buf
                                          (Some (st_mode st)) now)
                              w3))))"

text \<open>The exported \<^verbatim>\<open>cp\<close>; the fuel bounds the depth of the nested calls of \<^verbatim>\<open>cp\<close>.\<close>

fun fs_cp ::
  "(stub \<Rightarrow> stub \<Rightarrow> bool) \<Rightarrow> (nat \<Rightarrow> nat) \<Rightarrow> nat \<Rightarrow> world \<Rightarrow> string \<Rightarrow> string \<Rightarrow> bool
     \<Rightarrow> ((error + unit) \<times> world) option" where
  "fs_cp same clock 0 w src dest recursive = None"
| "fs_cp same clock (Suc k) w src dest recursive =
     (if same (getInstance src) (getInstance dest)
      then call_partial clock (getInstanceName src)
             (\<lambda>s now. DOFS_cp k s src dest recursive now) w
      else cp_across clock (\<lambda>w' src' dest'. fs_cp same clock k w' src' dest' recursive)
             w src dest recursive)"

text \<open>The \<^verbatim>\<open>else\<close> branch of the exported \<^verbatim>\<open>rename\<close>: a recursive \<^verbatim>\<open>cp\<close>, then a
  recursive \<^verbatim>\<open>rm\<close> of the old path.\<close>

definition rename_across ::
  "(stub \<Rightarrow> stub \<Rightarrow> bool) \<Rightarrow> (nat \<Rightarrow> nat) \<Rightarrow> nat \<Rightarrow> world \<Rightarrow> string \<Rightarrow> string
     \<Rightarrow> ((error + unit) \<times> world) option" where
  "rename_across same clock fuel w oldPath newPath =
     (case fs_cp same clock fuel w oldPath newPath True of
        None \<Rightarrow> None
      | Some (Inl e, w1) \<Rightarrow> Some (Inl e, w1)
      | Some (Inr u, w1) \<Rightarrow> Some (fs_rm clock w1 oldPath True False))"

definition fs_rename ::
  "(stub \<Rightarrow> stub \<Rightarrow> bool) \<Rightarrow> (nat \<Rightarrow> nat) \<Rightarrow> nat \<Rightarrow> world \<Rightarrow> string \<Rightarrow> string
     \<Rightarrow> ((error + unit) \<times> world) option" where
  "fs_rename same clock fuel w oldPath newPath =
     (if same (getInstance oldPath) (getInstance newPath)
      then Some (call clock (getInstanceName oldPath)
                   (\<lambda>s now. DOFS_rename s oldPath newPath now) w)
      else rename_across same clock fuel w oldPath newPath)"

section \<open>Predicates of the properties\<close>

text \<open>A row as \<^verbatim>\<open>mkdir\<close> inserts it: a directory without content, of size 0.\<close>

definition empty_directory :: "row \<Rightarrow> bool" where
  "empty_directory r \<longleftrightarrow> type r = Directory \<and> content r = None \<and> size_bytes r = 0"

text \<open>\<open>only_touched s s'\<close>: the table \<open>s'\<close> is the table \<open>s\<close>, row by row and in the same
  order, with no field changed but possibly the access time, followed by nothing but new
  empty directories.\<close>

fun only_touched :: "store \<Rightarrow> store \<Rightarrow> bool" where
  "only_touched [] s' = list_all empty_directory s'"
| "only_touched (r # s) [] = False"
| "only_touched (r # s) (r' # s') = (r' = r\<lparr>atime := atime r'\<rparr> \<and> only_touched s s')"

text \<open>The invariant of the data model: every directory row is an empty directory.\<close>

definition dirs_empty :: "store \<Rightarrow> bool" where
  "dirs_empty s = list_all (\<lambda>r. type r = File \<or> empty_directory r) s"

text \<open>The row a descendant of \<open>old\<close> becomes when \<open>old\<close> is renamed to \<open>new\<close>: the prefix
  \<open>old\<close> of its path is replaced by \<open>new\<close>, and the parent path follows the new path.\<close>

definition moved :: "string \<Rightarrow> string \<Rightarrow> row \<Rightarrow> row" where
  "moved old new r =
     r\<lparr>path := new @ drop (length old) (path r),
       parent_path := getParentPath (new @ drop (length old) (path r))\<rparr>"

text \<open>The parent path of the destination, when there is one to look up, names the shard
  of the destination itself.\<close>

definition parent_in_destination_shard :: "string \<Rightarrow> bool" where
  "parent_in_destination_shard dest =
     (case parent_to_check (getParentPath dest) of
        None \<Rightarrow> True
      | Some pp \<Rightarrow> getInstanceName pp = getInstanceName dest)"

section \<open>Concrete runs\<close>

text \<open>The parameters of the runs below: text is ASCII, so the encoder and the decoder map
  characters to their codes and back; the runtime makes a new stub on every call of \<^verbatim>\<open>get\<close>,
  so that the stubs of two calls are never the same object; and
  the clock shows \<open>k + 1\<close> seconds at the call number \<open>k\<close>.\<close>

definition ascii_encode :: "string \<Rightarrow> byte list" where
  "ascii_encode = map of_char"

definition ascii_decode :: "string \<Rightarrow> byte list \<Rightarrow> error + string" where
  "ascii_decode enc b = Inr (map (\<lambda>c. char_of (unat c)) b)"

definition never_same :: "stub \<Rightarrow> stub \<Rightarrow> bool" where
  "never_same a b \<longleftrightarrow> False"

definition ticking :: "nat \<Rightarrow> nat" where
  "ticking k = Suc k"

text \<open>A table after \<^verbatim>\<open>mkdir("/tmp")\<close> and \<^verbatim>\<open>writeFile("/tmp/f", bytes)\<close>.\<close>

definition tmp_store :: store where
  "tmp_store =
     snd (DOFS_writeFile ascii_encode (snd (DOFS_mkdir [] ''/tmp'' False None 1)) ''/tmp/f''
            (ArrayBufferData [104, 105]) NoWriteOptions 2)"

text \<open>A table after \<^verbatim>\<open>mkdir("/a")\<close>, \<^verbatim>\<open>writeFile("/a/f", ...)\<close>, \<^verbatim>\<open>mkdir("/A")\<close> and
  \<^verbatim>\<open>writeFile("/A/a", ...)\<close>.\<close>

definition rename_store :: store where
  "rename_store =
     snd (DOFS_writeFileBuffer
            (snd (DOFS_mkdir
                    (snd (DOFS_writeFileBuffer (snd (DOFS_mkdir [] ''/a'' False None 1))
                            ''/a/f'' [1] None 2))
                    ''/A'' False None 3))
            ''/A/a'' [2] None 4)"

text \<open>A table after \<^verbatim>\<open>mkdir("/a")\<close>, \<^verbatim>\<open>writeFile("/a/f", ...)\<close> and \<^verbatim>\<open>mkdir("/c")\<close>.\<close>

definition plain_store :: store where
  "plain_store =
     snd (DOFS_mkdir
            (snd (DOFS_writeFileBuffer (snd (DOFS_mkdir [] ''/a'' False None 1))
                    ''/a/f'' [1] None 2))
            ''/c'' False None 3)"

text \<open>Worlds reached through the exported functions from the empty one: alice has the file
  \<^verbatim>\<open>/Users/alice/x.txt\<close> and bob has his directory; then bob also has the file
  \<^verbatim>\<open>/Users/bob/notes\<close>.\<close>

definition empty_world :: world where
  "empty_world = \<lparr> disks = (\<lambda>n. []), calls = 0 \<rparr>"

definition alice_bob_world :: world where
  "alice_bob_world =
     snd (fs_mkdir ticking
            (snd (fs_writeFile ascii_encode ticking
                    (snd (fs_mkdir ticking empty_world ''/Users/alice'' True None))
                    ''/Users/alice/x.txt'' (StringData ''hi'') NoWriteOptions))
            ''/Users/bob'' True None)"

definition notes_world :: world where
  "notes_world =
     snd (fs_writeFile ascii_encode ticking alice_bob_world ''/Users/bob/notes''
            (StringData ''n'') NoWriteOptions)"

text \<open>The worlds two cross-shard copies leave: one that succeeds, and one whose destination
  parent \<^verbatim>\<open>/Users/bob/notes\<close> is a file.\<close>

definition copied_world :: world where
  "copied_world =
     snd (fs_copyFile never_same ticking alice_bob_world
            ''/Users/alice/x.txt'' ''/Users/bob/x.txt'' 0)"

definition failed_world :: world where
  "failed_world =
     snd (fs_copyFile never_same ticking notes_world
            ''/Users/alice/x.txt'' ''/Users/bob/notes/x.txt'' 0)"

text \<open>The world after \<^verbatim>\<open>mkdir("/tmp")\<close> and \<^verbatim>\<open>writeFile("/tmp/f", "hi")\<close>, both in the
  shard \<^verbatim>\<open>default\<close>.\<close>

definition tmp_world :: world where
  "tmp_world =
     snd (fs_writeFile ascii_encode ticking
            (snd (fs_mkdir ticking empty_world ''/tmp'' False None))
            ''/tmp/f'' (StringData ''hi'') NoWriteOptions)"

text \<open>A table after \<^verbatim>\<open>mkdir("/d")\<close>, \<^verbatim>\<open>writeFile("/d/f", ...)\<close> and
  \<^verbatim>\<open>copyFile("/d/f", "/d")\<close>, which replaces the directory \<^verbatim>\<open>/d\<close> by a file.\<close>

definition orphan_store :: store where
  "orphan_store =
     snd (DOFS_copyFile
            (snd (DOFS_writeFileBuffer (snd (DOFS_mkdir [] ''/d'' False None 1))
                    ''/d/f'' [1] None 2))
            ''/d/f'' ''/d'' 0 3)"

section \<open>Facts about the statements and the methods\<close>

lemma select_path_None_iff: "select_path s p = None \<longleftrightarrow> p \<notin> set (map path s)"
  by (auto simp: select_path_def find_None_iff)

lemma select_path_update_same:
  assumes "\<And>r. path (f r) = path r"
  shows "select_path (update_where_path s p f) p = map_option f (select_path s p)"
  using assms by (induction s) (auto simp: select_path_def update_where_path_def)

lemma select_path_append:
  "select_path (s @ t) p =
     (case select_path s p of None \<Rightarrow> select_path t p | Some r \<Rightarrow> Some r)"
  by (induction s) (auto simp: select_path_def)

lemma select_path_single: "select_path [r] p = (if path r = p then Some r else None)"
  by (simp add: select_path_def)

lemma insert_row_new:
  assumes "select_path s (path r) = None"
  shows "insert_row s r = Inr (s @ [r])"
  using assms by (simp add: insert_row_def select_path_None_iff)

lemma writeFile_bytes:
  "d = ArrayBufferData b \<or> d = Uint8ArrayData b \<Longrightarrow>
   DOFS_writeFile encode s p d options now =
     DOFS_writeFileBuffer s p b (write_mode options) now"
  by (auto simp: DOFS_writeFile_def)

lemma writeFileBuffer_overwrite:
  assumes "\<not> parent_not_directory s (getParentPath (normalizePath p))"
    and "select_path s (normalizePath p) = Some existing"
  shows "DOFS_writeFileBuffer s p b omode now =
     (Inr (), update_where_path s (normalizePath p)
                (\<lambda>r. r\<lparr>content := Some b, size_bytes := length b, mode := mode_or omode 438,
                        mtime := now, atime := now\<rparr>))"
  using assms by (simp add: DOFS_writeFileBuffer_def Let_def)

lemma writeFileBuffer_create:
  assumes "\<not> parent_not_directory s (getParentPath (normalizePath p))"
    and "select_path s (normalizePath p) = None"
  shows "DOFS_writeFileBuffer s p b omode now =
     (Inr (), s @ [\<lparr> path = normalizePath p, parent_path = getParentPath (normalizePath p),
                     name = getFileName (normalizePath p), type = File,
                     content = Some b, size_bytes = length b, mode = mode_or omode 438,
                     uid = 0, gid = 0, mtime = now, ctime = now, atime = now \<rparr>])"
  using assms by (simp add: DOFS_writeFileBuffer_def Let_def insert_row_new)

lemma writeFileBuffer_fails:
  assumes "parent_not_directory s (getParentPath (normalizePath p))"
  shows "DOFS_writeFileBuffer s p b omode now = (Inl ParentDirectoryDoesNotExist, s)"
  using assms by (simp add: DOFS_writeFileBuffer_def Let_def)

lemma writeFileBuffer_Inl:
  "fst (DOFS_writeFileBuffer s p b m now) = Inl e \<Longrightarrow>
   snd (DOFS_writeFileBuffer s p b m now) = s"
  by (auto simp: DOFS_writeFileBuffer_def Let_def split: if_splits option.splits sum.splits)

lemma writeFileBuffer_success:
  assumes "DOFS_writeFileBuffer s p b m now = (Inr (), s')"
  shows "\<exists>d. select_path s' (normalizePath p) = Some d \<and> content d = Some b \<and>
             size_bytes d = length b \<and> mode d = mode_or m 438"
proof -
  have ok: "\<not> parent_not_directory s (getParentPath (normalizePath p))"
    using assms writeFileBuffer_fails [of s p b m now] by auto
  show ?thesis
  proof (cases "select_path s (normalizePath p)")
    case None
    from writeFileBuffer_create [OF ok None, of b m now] assms None
    show ?thesis by (auto simp: select_path_append select_path_single)
  next
    case (Some existing)
    from writeFileBuffer_overwrite [OF ok Some, of b m now] assms Some
    show ?thesis by (auto simp: select_path_update_same)
  qed
qed

lemma readFileBuffer_success:
  assumes "select_path s p = Some f" and "fst (DOFS_readFileBuffer s p now) = Inr buf"
  shows "type f = File \<and> buf = (case content f of None \<Rightarrow> [] | Some b \<Rightarrow> b) \<and>
         select_path (snd (DOFS_readFileBuffer s p now)) p = Some (f\<lparr>atime := now\<rparr>)"
  using assms
  by (auto simp: DOFS_readFileBuffer_def select_path_update_same split: if_splits)

lemma mode_or_nonzero: "dflt \<noteq> 0 \<Longrightarrow> mode_or m dflt \<noteq> 0"
  by (simp add: mode_or_def split: option.split)

lemma stat_store: "snd (DOFS_stat s p) = s"
  by (simp add: DOFS_stat_def split: option.split)

lemma stat_success:
  assumes "select_path s p = Some f" and "fst (DOFS_stat s p) = Inr st"
  shows "st_mode st = mode f"
  using assms by (auto simp: DOFS_stat_def)

text \<open>Written at a normalized path that no directory occupies, the bytes are read back.\<close>

lemma write_then_read_normalized:
  assumes norm: "normalizePath p = p"
    and parent: "\<not> parent_not_directory s (getParentPath p)"
    and nodir: "\<And>existing. select_path s p = Some existing \<Longrightarrow> type existing = File"
  shows "fst (DOFS_readFile decode
               (snd (DOFS_writeFile encode s p (ArrayBufferData b) options now))
               p NoReadOptions now') = Inr (Buffer b)"
proof (cases "select_path s p")
  case None
  with writeFileBuffer_create [of s p b "write_mode options" now] norm parent
  show ?thesis
    by (simp add: DOFS_writeFile_def DOFS_readFile_def DOFS_readFileBuffer_def
        select_path_append select_path_single)
next
  case (Some existing)
  with writeFileBuffer_overwrite [of s p existing b "write_mode options" now] norm parent
    nodir [of existing]
  show ?thesis
    by (simp add: DOFS_writeFile_def DOFS_readFile_def DOFS_readFileBuffer_def
        select_path_update_same)
qed

text \<open>Facts about \<open>only_touched\<close>, and the methods that only touch a table.\<close>

lemma only_touched_refl: "only_touched s s"
  by (induction s) auto

lemma only_touched_append:
  "only_touched s s' \<Longrightarrow> list_all empty_directory new \<Longrightarrow> only_touched s (s' @ new)"
  by (induction s s' rule: only_touched.induct) auto

lemma empty_directory_atime: "empty_directory (r\<lparr>atime := t\<rparr>) = empty_directory r"
  by (simp add: empty_directory_def)

lemma only_touched_dirs:
  "list_all empty_directory b \<Longrightarrow> only_touched b c \<Longrightarrow> list_all empty_directory c"
proof (induction b c rule: only_touched.induct)
  case (3 r s r' s')
  then have "r' = r\<lparr>atime := atime r'\<rparr>" and "empty_directory r" by auto
  then have "empty_directory r'" using empty_directory_atime [where r = r and t = "atime r'"] by simp
  with 3 show ?case by auto
qed auto

lemma only_touched_trans:
  "only_touched a b \<Longrightarrow> only_touched b c \<Longrightarrow> only_touched a c"
proof (induction a b arbitrary: c rule: only_touched.induct)
  case (1 s')
  then show ?case using only_touched_dirs [of s' c] by simp
next
  case (2 r s)
  then show ?case by simp
next
  case (3 r s r' s')
  show ?case
  proof (cases c)
    case Nil
    with 3 show ?thesis by simp
  next
    case (Cons r'' c')
    with 3 have a: "r' = r\<lparr>atime := atime r'\<rparr>" and b: "r'' = r'\<lparr>atime := atime r''\<rparr>"
      and rest: "only_touched s c'" by auto
    have "r'' = r\<lparr>atime := atime r''\<rparr>"
      by (subst b, subst a) simp
    with rest Cons show ?thesis by simp
  qed
qed

lemma only_touched_atime: "only_touched s (update_where_path s p (\<lambda>r. r\<lparr>atime := now\<rparr>))"
  by (induction s) (auto simp: update_where_path_def)

lemma empty_directory_new:
  "empty_directory \<lparr> path = a, parent_path = b, name = c, type = Directory, content = None,
     size_bytes = 0, mode = d, uid = e, gid = f, mtime = g, ctime = h, atime = i \<rparr>"
  by (simp add: empty_directory_def)

lemma mkdir_appends:
  "\<exists>new. snd (DOFS_mkdir s p recursive omode now) = s @ new \<and> list_all empty_directory new"
proof (induction s p recursive omode now rule: DOFS_mkdir.induct)
  case (1 s p recursive omode now)
  have IH: "\<exists>new. snd (DOFS_mkdir s pp recursive omode now) = s @ new \<and>
                  list_all empty_directory new"
    if "select_path s (normalizePath p) = None"
      and "parent_to_check (getParentPath (normalizePath p)) = Some pp"
      and "select_path s pp = None" and recursive for pp
    using 1 that by blast
  show ?case
  proof (cases "select_path s (normalizePath p)")
    case (Some existing)
    then show ?thesis by (subst DOFS_mkdir.simps) (simp add: Let_def)
  next
    case None
    define checked where "checked =
      (case parent_to_check (getParentPath (normalizePath p)) of
         None \<Rightarrow> (Inr None, s)
       | Some pp \<Rightarrow>
           (case select_path s pp of
              None \<Rightarrow>
                if recursive then DOFS_mkdir s pp recursive omode now
                else (Inl ParentDirectoryDoesNotExist, s)
            | Some parent \<Rightarrow>
                if type parent \<noteq> Directory then (Inl ParentIsNotADirectory, s)
                else (Inr None, s)))"
    have "\<exists>new. snd checked = s @ new \<and> list_all empty_directory new"
      unfolding checked_def using IH [OF None] by (auto split: option.splits)
    then obtain new where new: "snd checked = s @ new" "list_all empty_directory new"
      by blast
    have "DOFS_mkdir s p recursive omode now =
      (case checked of
         (Inl e, s1) \<Rightarrow> (Inl e, s1)
       | (Inr firstCreated, s1) \<Rightarrow>
           (case insert_row s1
                   \<lparr> path = normalizePath p, parent_path = getParentPath (normalizePath p),
                     name = getFileName (normalizePath p), type = Directory,
                     content = None, size_bytes = 0, mode = mode_or omode 511,
                     uid = 0, gid = 0, mtime = now, ctime = now, atime = now \<rparr> of
              Inl e \<Rightarrow> (Inl e, s1)
            | Inr s2 \<Rightarrow>
                (Inr (Some (case firstCreated of
                              None \<Rightarrow> normalizePath p
                            | Some fc \<Rightarrow> if fc = [] then normalizePath p else fc)),
                 s2)))"
      unfolding checked_def using None by (subst DOFS_mkdir.simps) (simp add: Let_def)
    then show ?thesis using new
      by (cases checked)
        (auto simp: insert_row_def empty_directory_new split: sum.splits if_splits)
  qed
qed

lemma readFileBuffer_touched: "only_touched s (snd (DOFS_readFileBuffer s p now))"
  by (simp add: DOFS_readFileBuffer_def only_touched_refl only_touched_atime
      split: option.split)

text \<open>A call changes the table of the called object only.\<close>

lemma call_eq:
  "call clock n method w =
     (fst (method (disks w n) (clock (calls w))),
      \<lparr> disks = (disks w)(n := snd (method (disks w n) (clock (calls w)))),
        calls = Suc (calls w) \<rparr>)"
  by (simp add: call_def split: prod.split)

lemma stat_world: "disks (snd (fs_stat clock w p)) = disks w"
  by (simp add: fs_stat_def call_eq DOFS_stat_def split: option.split)

lemma ensureParentExists_world:
  "snd (ensureParentExists clock w p) = w \<or>
   (\<exists>q. snd (ensureParentExists clock w p) = snd (fs_stat clock w q)) \<or>
   (\<exists>q. snd (ensureParentExists clock w p) =
          snd (fs_mkdir clock (snd (fs_stat clock w q)) q True None))"
proof -
  have step: "snd (case fs_stat clock w q of
                 (Inr st, w1) \<Rightarrow> (Inr (), w1)
               | (Inl e, w1) \<Rightarrow>
                   (case fs_mkdir clock w1 q True None of
                      (Inl e', w2) \<Rightarrow> (Inl e', w2)
                    | (Inr created, w2) \<Rightarrow> (Inr (), w2))) = snd (fs_stat clock w q) \<or>
        snd (case fs_stat clock w q of
                 (Inr st, w1) \<Rightarrow> (Inr (), w1)
               | (Inl e, w1) \<Rightarrow>
                   (case fs_mkdir clock w1 q True None of
                      (Inl e', w2) \<Rightarrow> (Inl e', w2)
                    | (Inr created, w2) \<Rightarrow> (Inr (), w2))) =
          snd (fs_mkdir clock (snd (fs_stat clock w q)) q True None)" for q
    by (cases "fs_stat clock w q"; cases "fst (fs_stat clock w q)";
        cases "fs_mkdir clock (snd (fs_stat clock w q)) q True None";
        cases "fst (fs_mkdir clock (snd (fs_stat clock w q)) q True None)") auto
  show ?thesis
    unfolding ensureParentExists_def Let_def
    using step by (auto split: option.splits)
qed

lemma ensureParentExists_appends:
  "\<exists>new. disks (snd (ensureParentExists clock w p)) n = disks w n @ new \<and>
         list_all empty_directory new"
proof -
  have mk: "\<exists>new. disks (snd (fs_mkdir clock w1 q True None)) n = disks w1 n @ new \<and>
                  list_all empty_directory new" for w1 q
    using mkdir_appends [of "disks w1 (getInstanceName q)" q True None "clock (calls w1)"]
    by (auto simp: fs_mkdir_def call_eq)
  have st: "disks (snd (fs_stat clock w q)) n = disks w n" for q
    by (simp add: stat_world)
  from ensureParentExists_world [of clock w p]
  consider "snd (ensureParentExists clock w p) = w"
    | q where "snd (ensureParentExists clock w p) = snd (fs_stat clock w q)"
    | q where "snd (ensureParentExists clock w p) =
          snd (fs_mkdir clock (snd (fs_stat clock w q)) q True None)"
    by blast
  then show ?thesis
  proof cases
    case 1
    then show ?thesis by simp
  next
    case 2
    then show ?thesis using st by simp
  next
    case 3
    then show ?thesis using mk [of "snd (fs_stat clock w q)" q] st [of q] by simp
  qed
qed

lemma copyFile_across_failure_touched:
  assumes fail: "copyFile_across clock w src dest = (Inl e, w')"
  shows "only_touched (disks w n) (disks w' n)"
proof -
  let ?sn = "getInstanceName src" and ?dn = "getInstanceName dest"
  obtain r1 w1 where e1: "ensureParentExists clock w dest = (r1, w1)"
    by (cases "ensureParentExists clock w dest")
  have t1: "only_touched (disks w n) (disks w1 n)"
    using ensureParentExists_appends [of clock w dest n] e1
      only_touched_append [OF only_touched_refl]
    by auto
  define rd where "rd = DOFS_readFileBuffer (disks w1 ?sn) src (clock (calls w1))"
  define w2 where "w2 = \<lparr> disks = (disks w1)(?sn := snd rd), calls = Suc (calls w1) \<rparr>"
  have t2: "only_touched (disks w1 n) (disks w2 n)"
    by (simp add: w2_def rd_def readFileBuffer_touched only_touched_refl)
  have t12: "only_touched (disks w n) (disks w2 n)"
    using t1 t2 by (rule only_touched_trans)
  define w3 where "w3 = \<lparr> disks = (disks w2)(?sn := snd (DOFS_stat (disks w2 ?sn) src)),
                            calls = Suc (calls w2) \<rparr>"
  have d3: "disks w3 = disks w2"
    by (simp add: w3_def stat_store)
  have "disks w' = disks w1 \<or> disks w' = disks w2"
    using fail e1
    unfolding copyFile_across_def call_eq
    by (auto simp: w2_def rd_def stat_store writeFileBuffer_Inl
        split: sum.splits prod.splits)
  then show ?thesis using t1 t12 by auto
qed

text \<open>\<^verbatim>\<open>ensureParentExists\<close> looks the parent up, and creates it, in the shard that the
  parent path names.\<close>

lemma ensureParentExists_parent:
  "ensureParentExists clock w p =
     (case parent_to_check (getParentPath p) of
        None \<Rightarrow> (Inr (), w)
      | Some pp \<Rightarrow>
          (case call clock (getInstanceName pp) (\<lambda>s now. DOFS_stat s pp) w of
             (Inr st, w1) \<Rightarrow> (Inr (), w1)
           | (Inl e, w1) \<Rightarrow>
               (case call clock (getInstanceName pp)
                       (\<lambda>s now. DOFS_mkdir s pp True None now) w1 of
                  (Inl e', w2) \<Rightarrow> (Inl e', w2)
                | (Inr created, w2) \<Rightarrow> (Inr (), w2))))"
proof (cases "p = ''/''")
  case True
  then show ?thesis
    by (simp add: ensureParentExists_def getParentPath_def normalizePath_def
        parent_to_check_def strip_trailing_slashes_def)
next
  case False
  define N where "N = collapse_slashes (strip_trailing_slashes p)"
  have np: "normalizePath p = N" using False by (simp add: normalizePath_def N_def)
  show ?thesis
  proof (cases "lastIndexOf N (CHR ''/'')")
    case None
    then have "CHR ''/'' \<notin> set N" by (simp add: lastIndexOf_def split: if_splits)
    then show ?thesis using None np
      by (auto simp: ensureParentExists_def getParentPath_def parent_to_check_def N_def Let_def)
  next
    case (Some i)
    then have inN: "CHR ''/'' \<in> set N" by (simp add: lastIndexOf_def split: if_splits)
    have lt: "i < length N" using Some by (rule lastIndexOf_less)
    have ne: "i \<noteq> 0 \<Longrightarrow> take i N \<noteq> []" using lt by auto
    show ?thesis
      unfolding ensureParentExists_def fs_stat_def fs_mkdir_def
      using Some np inN ne
      by (auto simp: getParentPath_def parent_to_check_def N_def [symmetric] Let_def)
  qed
qed

text \<open>What \<^verbatim>\<open>rename\<close> does to a directory when \<^verbatim>\<open>LIKE\<close> selects its descendants only and
  the new path holds no dollar sign.\<close>

lemma first_occurrence_at_start:
  "prefix pat str \<Longrightarrow> first_occurrence pat str = Some ([], drop (length pat) str)"
  by (cases str) auto

lemma first_occurrence_prefix: "first_occurrence pat (pat @ rest) = Some ([], rest)"
  using first_occurrence_at_start [of pat "pat @ rest"] by simp

lemma get_substitution_plain:
  "CHR ''$'' \<notin> set repl \<Longrightarrow> get_substitution m b a repl = repl"
  by (induction m b a repl rule: get_substitution.induct) auto

lemma js_replace_prefix:
  "CHR ''$'' \<notin> set new \<Longrightarrow> js_replace (old @ rest) old new = new @ rest"
  by (simp add: js_replace_def first_occurrence_prefix get_substitution_plain)

lemma sql_like_skip: "sql_like ps cs \<Longrightarrow> sql_like (CHR ''%'' # ps) (c # cs)"
  by (cases cs) auto

lemma sql_like_descendant: "sql_like (old @ ''/%'') (old @ CHR ''/'' # rest)"
proof (induction old)
  case Nil
  have "sql_like ''%'' rest" by (induction rest) auto
  then show ?case by simp
next
  case (Cons p ps)
  then show ?case using sql_like_skip [of "ps @ ''/%''" "ps @ CHR ''/'' # rest" p] by auto
qed

lemma update_path_hit:
  assumes "update_path t p q f = Inr t1" and "select_path t p \<noteq> None"
  shows "t1 = map (\<lambda>r. if path r = p then (f r)\<lparr>path := q\<rparr> else r) t \<and>
         (q = p \<or> select_path t q = None)"
  using assms by (auto simp: update_path_def split: if_splits)

lemma rekey_absent:
  "p \<notin> set (map path t) \<Longrightarrow> map (\<lambda>r. if path r = p then g r else r) t = t"
  by (induction t) auto

lemma rekey_paths:
  assumes "\<And>r. path r = p \<Longrightarrow> path (g r) = q"
  shows "set (map path (map (\<lambda>r. if path r = p then g r else r) t)) \<subseteq>
         insert q (set (map path t))"
  using assms by (induction t) auto

lemma distinct_rekey:
  assumes "distinct (map path t)" and "q \<notin> set (map path t) \<or> q = p"
    and "\<And>r. path r = p \<Longrightarrow> path (g r) = q"
  shows "distinct (map path (map (\<lambda>r. if path r = p then g r else r) t))"
  using assms(1,2)
proof (induction t)
  case Nil
  then show ?case by simp
next
  case (Cons a t)
  show ?case
  proof (cases "path a = p")
    case True
    then have absent: "p \<notin> set (map path t)" using Cons.prems by auto
    then have "q \<notin> set (map path t)" using Cons.prems by auto
    moreover have "path (g a) = q" using True by (rule assms(3))
    ultimately show ?thesis
      using Cons.prems True by (simp add: rekey_absent [OF absent])
  next
    case False
    have "path a \<notin> set (map path (map (\<lambda>r. if path r = p then g r else r) t))"
      using rekey_paths [of p g q t, OF assms(3)] Cons.prems False by auto
    then show ?thesis using Cons False by auto
  qed
qed

lemma rename_children_moves:
  assumes "rename_children t cs old new = (Inr (), t')"
    and "distinct (map path t)"
    and "set cs \<subseteq> set t"
    and "distinct (map path cs)"
    and "\<forall>c\<in>set cs. prefix (old @ ''/'') (path c)"
    and "CHR ''$'' \<notin> set new"
  shows "t' = map (\<lambda>r. if path r \<in> set (map path cs) then moved old new r else r) t"
  using assms
proof (induction cs arbitrary: t)
  case Nil
  then show ?case by simp
next
  case (Cons c cs)
  let ?q = "new @ drop (length old) (path c)"
  have pc: "prefix (old @ ''/'') (path c)" using Cons.prems by simp
  then obtain rest where rest: "path c = old @ (CHR ''/'' # rest)"
    by (auto simp: prefix_def)
  have q: "js_replace (path c) old new = ?q"
    using js_replace_prefix [OF Cons.prems(6), of old "CHR ''/'' # rest"] rest by simp
  have cin: "c \<in> set t" using Cons.prems by simp
  then have sel: "select_path t (path c) \<noteq> None"
    by (auto simp: select_path_None_iff)
  obtain t1 where t1: "update_path t (path c) ?q (\<lambda>r. r\<lparr>parent_path := getParentPath ?q\<rparr>) = Inr t1"
    and loop: "rename_children t1 cs old new = (Inr (), t')"
    using Cons.prems(1) q by (auto simp: Let_def split: sum.splits)
  from update_path_hit [OF t1 sel]
  have t1_eq: "t1 = map (\<lambda>r. if path r = path c then moved old new r else r) t"
    and fresh: "?q = path c \<or> select_path t ?q = None"
    by (auto simp: moved_def)
  have same: "r = c" if "r \<in> set t" "path r = path c" for r
    using that cin Cons.prems(2) by (meson distinct_map inj_onD)
  have qnew: "?q \<notin> set (map path t) \<or> ?q = path c"
    using fresh by (auto simp: select_path_None_iff)
  have d1: "distinct (map path t1)"
    unfolding t1_eq
    by (rule distinct_rekey [OF Cons.prems(2) qnew]) (simp add: moved_def)
  have dcs: "path c \<notin> set (map path cs)"
    using Cons.prems(4) by simp
  have sub1: "set cs \<subseteq> set t1"
  proof
    fix r assume r: "r \<in> set cs"
    then have "path r \<in> set (map path cs)" by simp
    then have "path r \<noteq> path c" using dcs by metis
    moreover have "r \<in> set t" using r Cons.prems(3) by auto
    ultimately show "r \<in> set t1" unfolding t1_eq by (auto simp: image_iff)
  qed
  have IH: "t' = map (\<lambda>r. if path r \<in> set (map path cs) then moved old new r else r) t1"
    using Cons.IH [OF loop d1 sub1] Cons.prems by simp
  have qcs: "?q \<notin> set (map path cs)"
    using qnew dcs Cons.prems(3) by auto
  show ?case
    unfolding IH t1_eq using qcs by (auto simp: moved_def)
qed

lemma sql_like_prefix:
  "prefix (old @ ''/'') p \<Longrightarrow> sql_like (old @ ''/%'') p"
  using sql_like_descendant by (auto simp: prefix_def)

lemma rename_directory_moves_subtree:
  assumes keys: "distinct (map path s)"
    and dir: "select_path s (normalizePath oldPath) = Some d" "type d = Directory"
    and plain: "CHR ''$'' \<notin> set (normalizePath newPath)"
    and exact: "\<And>r. r \<in> set s \<Longrightarrow> sql_like (normalizePath oldPath @ ''/%'') (path r) \<Longrightarrow>
                  prefix (normalizePath oldPath @ ''/'') (path r)"
    and outside: "\<not> sql_like (normalizePath oldPath @ ''/%'') (normalizePath newPath)"
    and ok: "DOFS_rename s oldPath newPath now = (Inr (), s')"
  shows "s' =
     map (\<lambda>r. if path r = normalizePath oldPath
              then r\<lparr>path := normalizePath newPath,
                     parent_path := getParentPath (normalizePath newPath),
                     name := getFileName (normalizePath newPath), mtime := now\<rparr>
              else if prefix (normalizePath oldPath @ ''/'') (path r)
              then moved (normalizePath oldPath) (normalizePath newPath) r
              else r) s"
proof -
  let ?O = "normalizePath oldPath" and ?N = "normalizePath newPath"
  let ?f = "\<lambda>r. r\<lparr>parent_path := getParentPath ?N, name := getFileName ?N, mtime := now\<rparr>"
  let ?h = "\<lambda>r. if path r = ?O then (?f r)\<lparr>path := ?N\<rparr> else r"
  obtain s1 where s1: "update_path s ?O ?N ?f = Inr s1"
    and loop: "rename_children s1 (select_like s1 (?O @ ''/%'')) ?O ?N = (Inr (), s')"
    using ok dir by (auto simp: DOFS_rename_def Let_def split: if_splits sum.splits)
  from update_path_hit [OF s1] dir
  have s1_eq: "s1 = map ?h s" and fresh: "?N = ?O \<or> select_path s ?N = None"
    by auto
  have d1: "distinct (map path s1)"
    unfolding s1_eq
    by (rule distinct_rekey [OF keys]) (use fresh in \<open>auto simp: select_path_None_iff\<close>)
  let ?cs = "select_like s1 (?O @ ''/%'')"
  have sub: "set ?cs \<subseteq> set s1" by (auto simp: select_like_def)
  have dcs: "distinct (map path ?cs)"
    using d1 by (simp add: select_like_def distinct_map_filter)
  have in_s: "c \<in> set s \<and> path c \<noteq> ?O" if "c \<in> set ?cs" for c
  proof -
    from that have c1: "c \<in> set s1" and lk: "sql_like (?O @ ''/%'') (path c)"
      by (auto simp: select_like_def)
    from c1 obtain r where r: "r \<in> set s" "c = ?h r" unfolding s1_eq by auto
    show ?thesis
    proof (cases "path r = ?O")
      case True
      then have "path c = ?N" using r by simp
      then show ?thesis using lk outside by simp
    next
      case False
      then show ?thesis using r by simp
    qed
  qed
  have pre: "\<forall>c\<in>set ?cs. prefix (?O @ ''/'') (path c)"
    using in_s exact by (auto simp: select_like_def)
  have paths: "path r \<in> set (map path ?cs) \<longleftrightarrow> prefix (?O @ ''/'') (path r)"
    if "r \<in> set s" "path r \<noteq> ?O" for r
  proof
    assume "path r \<in> set (map path ?cs)"
    then obtain c where "c \<in> set ?cs" "path c = path r" by auto
    then show "prefix (?O @ ''/'') (path r)" using pre by metis
  next
    assume p: "prefix (?O @ ''/'') (path r)"
    have "r \<in> set s1" unfolding s1_eq using that by (auto simp: image_iff)
    then have "r \<in> set ?cs" using sql_like_prefix [OF p] by (simp add: select_like_def)
    then show "path r \<in> set (map path ?cs)" by simp
  qed
  have top: "?N \<notin> set (map path ?cs)"
    using outside by (auto simp: select_like_def)
  from rename_children_moves [OF loop d1 sub dcs pre plain]
  have "s' = map (\<lambda>r. if path r \<in> set (map path ?cs) then moved ?O ?N r else r) (map ?h s)"
    by (simp add: s1_eq)
  also have "\<dots> = map (\<lambda>r. if path r = ?O
              then r\<lparr>path := ?N, parent_path := getParentPath ?N,
                     name := getFileName ?N, mtime := now\<rparr>
              else if prefix (?O @ ''/'') (path r) then moved ?O ?N r else r) s"
    unfolding map_map
  proof (rule map_cong [OF refl])
    fix r assume r: "r \<in> set s"
    show "((\<lambda>r. if path r \<in> set (map path ?cs) then moved ?O ?N r else r) \<circ> ?h) r =
      (if path r = ?O
       then r\<lparr>path := ?N, parent_path := getParentPath ?N,
              name := getFileName ?N, mtime := now\<rparr>
       else if prefix (?O @ ''/'') (path r) then moved ?O ?N r else r)"
    proof (cases "path r = ?O")
      case True
      then show ?thesis using top by simp
    next
      case False
      then show ?thesis using paths [OF r False] by simp
    qed
  qed
  finally show ?thesis .
qed

text \<open>The hypotheses of \<open>rename_directory_moves_subtree\<close> hold for \<^verbatim>\<open>rename("/a", "/b")\<close> in
  the table with \<^verbatim>\<open>/a\<close>, \<^verbatim>\<open>/a/f\<close> and \<^verbatim>\<open>/c\<close>.\<close>

lemma rename_directory_example:
  "fst (DOFS_rename plain_store ''/a'' ''/b'' 5) = Inr () \<and>
   snd (DOFS_rename plain_store ''/a'' ''/b'' 5) =
     map (\<lambda>r. if path r = normalizePath ''/a''
              then r\<lparr>path := normalizePath ''/b'',
                     parent_path := getParentPath (normalizePath ''/b''),
                     name := getFileName (normalizePath ''/b''), mtime := 5\<rparr>
              else if prefix (normalizePath ''/a'' @ ''/'') (path r)
              then moved (normalizePath ''/a'') (normalizePath ''/b'') r
              else r) plain_store \<and>
   map path (snd (DOFS_rename plain_store ''/a'' ''/b'' 5)) = [''/b'', ''/b/f'', ''/c'']"
proof -
  have keys: "distinct (map path plain_store)" by code_simp
  have dir: "select_path plain_store (normalizePath ''/a'') =
      Some \<lparr> path = ''/a'', parent_path = Some ''/'', name = ''a'', type = Directory,
             content = None, size_bytes = 0, mode = 511, uid = 0, gid = 0,
             mtime = 1, ctime = 1, atime = 1 \<rparr>"
    by code_simp
  have plain: "CHR ''$'' \<notin> set (normalizePath ''/b'')" by code_simp
  have "\<forall>r\<in>set plain_store. sql_like (normalizePath ''/a'' @ ''/%'') (path r) \<longrightarrow>
      prefix (normalizePath ''/a'' @ ''/'') (path r)"
    by code_simp
  then have exact: "\<And>r. r \<in> set plain_store \<Longrightarrow>
      sql_like (normalizePath ''/a'' @ ''/%'') (path r) \<Longrightarrow>
      prefix (normalizePath ''/a'' @ ''/'') (path r)"
    by blast
  have outside: "\<not> sql_like (normalizePath ''/a'' @ ''/%'') (normalizePath ''/b'')"
    by code_simp
  have ok: "fst (DOFS_rename plain_store ''/a'' ''/b'' 5) = Inr ()" by code_simp
  then have "DOFS_rename plain_store ''/a'' ''/b'' 5 =
      (Inr (), snd (DOFS_rename plain_store ''/a'' ''/b'' 5))"
    by (metis prod.collapse)
  from rename_directory_moves_subtree [OF keys dir _ plain exact outside this]
  have "snd (DOFS_rename plain_store ''/a'' ''/b'' 5) =
     map (\<lambda>r. if path r = normalizePath ''/a''
              then r\<lparr>path := normalizePath ''/b'',
                     parent_path := getParentPath (normalizePath ''/b''),
                     name := getFileName (normalizePath ''/b''), mtime := 5\<rparr>
              else if prefix (normalizePath ''/a'' @ ''/'') (path r)
              then moved (normalizePath ''/a'') (normalizePath ''/b'') r
              else r) plain_store"
    by simp
  moreover have "map path (snd (DOFS_rename plain_store ''/a'' ''/b'' 5)) =
      [''/b'', ''/b/f'', ''/c'']"
    by code_simp
  ultimately show ?thesis using ok by simp
qed

text \<open>The methods that keep every directory empty; \<^verbatim>\<open>writeFileBuffer\<close> does when the
  rows at its path are files.\<close>

lemma dirs_empty_append: "dirs_empty (s @ t) \<longleftrightarrow> dirs_empty s \<and> dirs_empty t"
  by (simp add: dirs_empty_def)

lemma dirs_empty_new: "list_all empty_directory new \<Longrightarrow> dirs_empty new"
  by (induction new) (auto simp: dirs_empty_def)

lemma dirs_empty_filter: "dirs_empty s \<Longrightarrow> dirs_empty (filter P s)"
  by (induction s) (auto simp: dirs_empty_def)

lemma dirs_empty_map:
  assumes "dirs_empty s"
    and "\<And>r. r \<in> set s \<Longrightarrow> type (g r) = type r \<and> content (g r) = content r \<and>
                size_bytes (g r) = size_bytes r"
  shows "dirs_empty (map g s)"
  using assms by (induction s) (auto simp: dirs_empty_def empty_directory_def)

lemma mkdir_dirs_empty:
  "dirs_empty s \<Longrightarrow> dirs_empty (snd (DOFS_mkdir s p recursive omode now))"
  using mkdir_appends [of s p recursive omode now]
  by (auto simp: dirs_empty_append dirs_empty_new)

lemma readFileBuffer_dirs_empty:
  "dirs_empty s \<Longrightarrow> dirs_empty (snd (DOFS_readFileBuffer s p now))"
  by (auto simp: DOFS_readFileBuffer_def update_where_path_def split: option.splits
      intro!: dirs_empty_map)

lemma copyFile_dirs_empty:
  "dirs_empty s \<Longrightarrow> dirs_empty (snd (DOFS_copyFile s src dest cmode now))"
  by (auto simp: DOFS_copyFile_def Let_def insert_or_replace_def dirs_empty_append
      dirs_empty_filter split: option.splits)
    (simp add: dirs_empty_def)

lemma rm_dirs_empty:
  "dirs_empty s \<Longrightarrow> dirs_empty (snd (DOFS_rm s p recursive force))"
  by (auto simp: DOFS_rm_def Let_def delete_path_def delete_like_def dirs_empty_filter
      split: option.splits)

lemma update_path_dirs_empty:
  assumes "dirs_empty s" and "update_path s p q f = Inr s1"
    and "\<And>r. type (f r) = type r \<and> content (f r) = content r \<and> size_bytes (f r) = size_bytes r"
  shows "dirs_empty s1"
  using assms
  by (auto simp: update_path_def split: if_splits intro!: dirs_empty_map)

lemma rename_children_dirs_empty:
  "dirs_empty s \<Longrightarrow> dirs_empty (snd (rename_children s cs old new))"
proof (induction cs arbitrary: s)
  case Nil
  then show ?case by simp
next
  case (Cons c cs)
  show ?case
  proof (cases "update_path s (path c) (js_replace (path c) old new)
                  (\<lambda>r. r\<lparr>parent_path := getParentPath (js_replace (path c) old new)\<rparr>)")
    case (Inl e)
    then show ?thesis using Cons.prems by (simp add: Let_def)
  next
    case (Inr s1)
    then have "dirs_empty s1"
      using update_path_dirs_empty [OF Cons.prems Inr] by simp
    then show ?thesis using Cons.IH [of s1] Inr by (simp add: Let_def)
  qed
qed

lemma rename_dirs_empty:
  "dirs_empty s \<Longrightarrow> dirs_empty (snd (DOFS_rename s oldPath newPath now))"
proof -
  assume s: "dirs_empty s"
  have step: "dirs_empty s1"
    if "update_path s (normalizePath oldPath) (normalizePath newPath)
          (\<lambda>r. r\<lparr>parent_path := getParentPath (normalizePath newPath),
                  name := getFileName (normalizePath newPath), mtime := now\<rparr>) = Inr s1" for s1
    using update_path_dirs_empty [OF s that] by simp
  show ?thesis
    using s step rename_children_dirs_empty
    by (auto simp: DOFS_rename_def Let_def split: option.splits sum.splits)
qed

lemma writeFileBuffer_dirs_empty:
  assumes "dirs_empty s"
    and "\<And>r. r \<in> set s \<Longrightarrow> path r = normalizePath p \<Longrightarrow> type r = File"
  shows "dirs_empty (snd (DOFS_writeFileBuffer s p b omode now))"
proof -
  have upd: "dirs_empty (update_where_path s (normalizePath p)
      (\<lambda>r. r\<lparr>content := Some b, size_bytes := length b, mode := mode_or omode 438,
              mtime := now, atime := now\<rparr>))"
    using assms
    by (induction s) (auto simp: update_where_path_def dirs_empty_def empty_directory_def)
  show ?thesis
    using assms(1) upd
    by (auto simp: DOFS_writeFileBuffer_def Let_def insert_row_def dirs_empty_append
        split: option.splits)
      (simp add: dirs_empty_def)
qed

lemma cp_dirs_empty:
  "DOFS_cp k s src dest recursive now = Some r \<Longrightarrow> dirs_empty s \<Longrightarrow> dirs_empty (snd r)"
  "DOFS_cp_children k s cs dest recursive now = Some r \<Longrightarrow> dirs_empty s \<Longrightarrow>
     dirs_empty (snd r)"
proof (induction k s src dest recursive now and k s cs dest recursive now
    arbitrary: r and r rule: DOFS_cp_DOFS_cp_children.induct)
  case (1 s src dest recursive now)
  then show ?case by simp
next
  case (2 k s src dest recursive now)
  show ?case
  proof (cases "select_path s src")
    case None
    then show ?thesis using 2 by auto
  next
    case (Some srcFile)
    show ?thesis
    proof (cases "type srcFile")
      case File
      then show ?thesis using 2 Some copyFile_dirs_empty [of s src dest 0 now] by auto
    next
      case Directory
      show ?thesis
      proof (cases recursive)
        case False
        then show ?thesis using 2 Some Directory by auto
      next
        case True
        obtain res s1 where mk: "DOFS_mkdir s dest True None now = (res, s1)"
          by (cases "DOFS_mkdir s dest True None now")
        then have s1: "dirs_empty s1"
          using mkdir_dirs_empty [of s dest True None now] "2.prems" by simp
        show ?thesis
        proof (cases res)
          case (Inl e)
          then show ?thesis using 2 Some Directory True mk s1 by auto
        next
          case (Inr created)
          then have "DOFS_cp_children k s1 (select_children s1 src) dest recursive now = Some r"
            using "2.prems" Some Directory True mk by simp
          then show ?thesis
            using "2.IH" [OF Some Directory _ mk [symmetric, unfolded Inr]] True s1 
            by auto
        qed
      qed
    qed
  qed
next
  case (3 k s dest recursive now)
  then show ?case by auto
next
  case (4 k s child children dest recursive now)
  then show ?case
    by (auto split: option.splits sum.splits prod.splits)
qed

text \<open>When no two stubs are ever the same object, as with a runtime that makes a new stub
  on every call of \<^verbatim>\<open>get\<close>, each of the three functions takes its \<^verbatim>\<open>else\<close> branch, also
  for two paths of one shard.\<close>

lemma fresh_stubs_always_across:
  assumes "\<And>x y. \<not> same x y"
  shows "fs_copyFile same clock w a b cmode = copyFile_across clock w a b \<and>
         fs_cp same clock (Suc k) w a b recursive =
           cp_across clock (\<lambda>w' a' b'. fs_cp same clock k w' a' b' recursive)
             w a b recursive \<and>
         fs_rename same clock fuel w a b = rename_across same clock fuel w a b"
  using assms by (simp add: fs_copyFile_def fs_rename_def)

section \<open>Properties\<close>

text \<open>
  Claim C1. A same-shard \<^verbatim>\<open>rename(oldDir, newDir)\<close> of an existing directory, with the
  parent of \<^verbatim>\<open>newDir\<close> an existing directory, should move every descendant from
  \<^verbatim>\<open>oldDir/rest\<close> to \<^verbatim>\<open>newDir/rest\<close> and change the path of no entry outside the subtree.
  The method does not: it selects the descendants with \<^verbatim>\<open>LIKE\<close>, which ignores the case of
  ASCII letters, and rewrites the first occurrence of \<^verbatim>\<open>oldDir\<close> wherever it stands, and it
  builds the new path with \<^verbatim>\<open>String.prototype.replace\<close>, which reads \<^verbatim>\<open>$$\<close> in \<^verbatim>\<open>newDir\<close> as one
  dollar sign. In the table with the directories \<^verbatim>\<open>/a\<close> and \<^verbatim>\<open>/A\<close> and the files \<^verbatim>\<open>/a/f\<close> and
  \<^verbatim>\<open>/A/a\<close>, \<^verbatim>\<open>rename("/a", "/b")\<close> succeeds and moves the file \<^verbatim>\<open>/A/a\<close>, which is outside
  \<^verbatim>\<open>/a\<close>, to \<^verbatim>\<open>/A/b\<close>; and \<^verbatim>\<open>rename("/a", "/b$$")\<close> moves the directory to \<^verbatim>\<open>/b$$\<close> but its
  file to \<^verbatim>\<open>/b$/f\<close>. What the claim says does hold when \<^verbatim>\<open>LIKE\<close> selects descendants
  only, the new path holds no dollar sign and lies outside the old one, and the method
  succeeds (\<open>rename_directory_moves_subtree\<close>).
\<close>

theorem rename_rewrites_outside_rows:
  "map path rename_store = [''/a'', ''/a/f'', ''/A'', ''/A/a''] \<and>
   map type rename_store = [Directory, File, Directory, File] \<and>
   fst (DOFS_rename rename_store ''/a'' ''/b'' 5) = Inr () \<and>
   map path (snd (DOFS_rename rename_store ''/a'' ''/b'' 5)) =
     [''/b'', ''/b/f'', ''/A'', ''/A/b''] \<and>
   fst (DOFS_rename rename_store ''/a'' ''/b$$'' 5) = Inr () \<and>
   map path (snd (DOFS_rename rename_store ''/a'' ''/b$$'' 5)) =
     [''/b$$'', ''/b$/f'', ''/A'', ''/A/b$'']"
  by code_simp

text \<open>
  Claim C2. For two paths given to \<^verbatim>\<open>copyFile\<close>, \<^verbatim>\<open>cp\<close> or \<^verbatim>\<open>rename\<close>, the exported
  function should run the method of the class in one Durable Object if and only if
  \<^verbatim>\<open>getInstanceName\<close> gives the same name for both, and the cross-shard sequence otherwise.
  It does not for two paths of one shard: the functions compare with \<^verbatim>\<open>===\<close> the stubs of
  two calls of \<^verbatim>\<open>get\<close>, which are never the same object, and so always take the \<^verbatim>\<open>else\<close>
  branch. For \<^verbatim>\<open>/tmp/f\<close> and \<^verbatim>\<open>/tmp/g\<close>, both of the shard \<^verbatim>\<open>default\<close>, \<^verbatim>\<open>copyFile\<close> makes
  four method calls where the method \<^verbatim>\<open>copyFile\<close> of the class is one, and sets the access
  time of the source, which that method leaves alone; \<^verbatim>\<open>cp\<close> does likewise; and \<^verbatim>\<open>rename\<close>
  makes five calls and gives the file a new creation time, which the method \<^verbatim>\<open>rename\<close> of
  the class keeps.
\<close>

theorem same_shard_paths_run_across:
  "(getInstanceName ''/tmp/f'' = ''default'' \<and> getInstanceName ''/tmp/g'' = ''default'' \<and>
    calls tmp_world = 2 \<and>
    map path (disks tmp_world ''default'') = [''/tmp'', ''/tmp/f''] \<and>
    map atime (disks tmp_world ''default'') = [1, 2] \<and>
    map ctime (disks tmp_world ''default'') = [1, 2] \<and>
    fst (fs_copyFile never_same ticking tmp_world ''/tmp/f'' ''/tmp/g'' 0) = Inr () \<and>
    calls (snd (fs_copyFile never_same ticking tmp_world ''/tmp/f'' ''/tmp/g'' 0)) = 6 \<and>
    map atime (disks (snd (fs_copyFile never_same ticking tmp_world ''/tmp/f'' ''/tmp/g'' 0))
                 ''default'') = [1, 4, 6] \<and>
    fst (DOFS_copyFile (disks tmp_world ''default'') ''/tmp/f'' ''/tmp/g'' 0 3) = Inr () \<and>
    map atime (snd (DOFS_copyFile (disks tmp_world ''default'') ''/tmp/f'' ''/tmp/g'' 0 3)) =
      [1, 2, 3] \<and>
    map_option (\<lambda>(r, w). (r, map atime (disks w ''default''), calls w))
      (fs_cp never_same ticking 1 tmp_world ''/tmp/f'' ''/tmp/g'' False) =
      Some (Inr (), [1, 5, 6], 6) \<and>
    map_option (\<lambda>(r, s). (r, map atime s))
      (DOFS_cp 1 (disks tmp_world ''default'') ''/tmp/f'' ''/tmp/g'' False 3) =
      Some (Inr (), [1, 2, 3]) \<and>
    map_option (\<lambda>(r, w). (r, map path (disks w ''default''), map ctime (disks w ''default''),
                           calls w))
      (fs_rename never_same ticking 1 tmp_world ''/tmp/f'' ''/tmp/g'') =
      Some (Inr (), [''/tmp'', ''/tmp/g''], [1, 6], 7) \<and>
    fst (DOFS_rename (disks tmp_world ''default'') ''/tmp/f'' ''/tmp/g'' 3) = Inr () \<and>
    map path (snd (DOFS_rename (disks tmp_world ''default'') ''/tmp/f'' ''/tmp/g'' 3)) =
      [''/tmp'', ''/tmp/g''] \<and>
    map ctime (snd (DOFS_rename (disks tmp_world ''default'') ''/tmp/f'' ''/tmp/g'' 3)) =
      [1, 2]) \<and>
   fs_copyFile never_same ticking tmp_world ''/tmp/f'' ''/tmp/g'' 0 =
     copyFile_across ticking tmp_world ''/tmp/f'' ''/tmp/g'' \<and>
   fs_rename never_same ticking 1 tmp_world ''/tmp/f'' ''/tmp/g'' =
     rename_across never_same ticking 1 tmp_world ''/tmp/f'' ''/tmp/g''"
proof (rule conjI)
  show "fs_copyFile never_same ticking tmp_world ''/tmp/f'' ''/tmp/g'' 0 =
      copyFile_across ticking tmp_world ''/tmp/f'' ''/tmp/g'' \<and>
    fs_rename never_same ticking 1 tmp_world ''/tmp/f'' ''/tmp/g'' =
      rename_across never_same ticking 1 tmp_world ''/tmp/f'' ''/tmp/g''"
    by (simp add: fs_copyFile_def fs_rename_def never_same_def)
qed code_simp

text \<open>
  Claim C3. Every stored directory should have no content and the size 0, also after a
  \<^verbatim>\<open>writeFile\<close> on a path that a directory occupies. \<^verbatim>\<open>writeFileBuffer\<close> does not look
  at the type of the row it finds: after \<^verbatim>\<open>mkdir("/d")\<close>, \<^verbatim>\<open>writeFile("/d", bytes)\<close>
  succeeds and leaves the row \<^verbatim>\<open>/d\<close> a directory with the two bytes as content and the
  size 2. The other methods keep the invariant, and so does \<^verbatim>\<open>writeFileBuffer\<close> on a path
  that no directory occupies (\<open>mkdir_dirs_empty\<close> to \<open>cp_dirs_empty\<close>).
\<close>

theorem writeFile_on_directory:
  "DOFS_mkdir [] ''/d'' False None 1 =
     (Inr (Some ''/d''),
      [\<lparr> path = ''/d'', parent_path = Some ''/'', name = ''d'', type = Directory,
          content = None, size_bytes = 0, mode = 511, uid = 0, gid = 0,
          mtime = 1, ctime = 1, atime = 1 \<rparr>]) \<and>
   DOFS_writeFile ascii_encode (snd (DOFS_mkdir [] ''/d'' False None 1)) ''/d''
       (ArrayBufferData [104, 105]) NoWriteOptions 2 =
     (Inr (),
      [\<lparr> path = ''/d'', parent_path = Some ''/'', name = ''d'', type = Directory,
          content = Some [104, 105], size_bytes = 2, mode = 438, uid = 0, gid = 0,
          mtime = 2, ctime = 1, atime = 2 \<rparr>])"
  by code_simp

text \<open>
  Claim C4. Every lookup and mutation should be made on the normalized path, so that
  \<^verbatim>\<open>stat\<close>, \<^verbatim>\<open>readFile\<close> and \<^verbatim>\<open>copyFile\<close> behave on \<open>p\<close> as on its normal form. \<^verbatim>\<open>stat\<close>,
  \<^verbatim>\<open>readFileBuffer\<close> and \<^verbatim>\<open>copyFile\<close> use the path as it is given, where \<^verbatim>\<open>mkdir\<close>,
  \<^verbatim>\<open>readdir\<close>, \<^verbatim>\<open>rename\<close>, \<^verbatim>\<open>rm\<close> and \<^verbatim>\<open>writeFileBuffer\<close> normalize it. In the table
  with the file \<^verbatim>\<open>/tmp/f\<close>, the path \<^verbatim>\<open>/tmp//f\<close> has the normal form \<^verbatim>\<open>/tmp/f\<close>, and yet
  \<^verbatim>\<open>stat\<close> and \<^verbatim>\<open>readFileBuffer\<close> find no file there, \<^verbatim>\<open>copyFile\<close> finds no source, and
  \<^verbatim>\<open>copyFile\<close> to \<^verbatim>\<open>/tmp//g\<close> stores a row under that very key.
\<close>

theorem lookup_without_normalize:
  "normalizePath ''/tmp//f'' = ''/tmp/f'' \<and>
   fst (DOFS_stat tmp_store ''/tmp//f'') = Inl FileDoesNotExist \<and>
   map_sum id st_size (fst (DOFS_stat tmp_store ''/tmp/f'')) = Inr 2 \<and>
   fst (DOFS_readFileBuffer tmp_store ''/tmp//f'' 3) = Inl FileDoesNotExist \<and>
   fst (DOFS_readFileBuffer tmp_store ''/tmp/f'' 3) = Inr [104, 105] \<and>
   fst (DOFS_copyFile tmp_store ''/tmp//f'' ''/tmp/g'' 0 3) = Inl SourceFileNotFound \<and>
   fst (DOFS_copyFile tmp_store ''/tmp/f'' ''/tmp/g'' 0 3) = Inr () \<and>
   map path (snd (DOFS_copyFile tmp_store ''/tmp/f'' ''/tmp//g'' 0 3)) =
     [''/tmp'', ''/tmp/f'', ''/tmp//g'']"
  by code_simp

text \<open>
  Claim C5 (as amended). For a cross-shard \<^verbatim>\<open>copyFile(src, dest)\<close> whose destination has its
  parent path in the destination shard, the steps are: make sure that the parent of
  \<^verbatim>\<open>dest\<close> exists (look it up in the destination shard and, when that fails, create it
  there recursively), then read the bytes of \<^verbatim>\<open>src\<close> (which sets the access time of
  \<^verbatim>\<open>src\<close>) and ask \<^verbatim>\<open>stat\<close> for it in the source shard, then write the bytes and the mode
  to \<^verbatim>\<open>dest\<close> in the destination shard. And when the copy fails, at whatever step, every
  table holds its old rows, unchanged except possibly for the access time, followed by
  nothing but new empty directories: no content is written, changed or lost.
\<close>

theorem copyFile_across_failure:
  assumes cross: "\<not> same (getInstance src) (getInstance dest)"
    and parent: "parent_in_destination_shard dest"
  shows "fs_copyFile same clock w src dest cmode =
           (case (case parent_to_check (getParentPath dest) of
                    None \<Rightarrow> (Inr (), w)
                  | Some pp \<Rightarrow>
                      (case call clock (getInstanceName dest) (\<lambda>s now. DOFS_stat s pp) w of
                         (Inr st, w1) \<Rightarrow> (Inr (), w1)
                       | (Inl e, w1) \<Rightarrow>
                           (case call clock (getInstanceName dest)
                                   (\<lambda>s now. DOFS_mkdir s pp True None now) w1 of
                              (Inl e', w2) \<Rightarrow> (Inl e', w2)
                            | (Inr created, w2) \<Rightarrow> (Inr (), w2)))) of
              (Inl e1, w1) \<Rightarrow> (Inl e1, w1)
            | (Inr u, w1) \<Rightarrow>
                (case call clock (getInstanceName src)
                        (\<lambda>s now. DOFS_readFileBuffer s src now) w1 of
                   (Inl e2, w2) \<Rightarrow> (Inl e2, w2)
                 | (Inr buf, w2) \<Rightarrow>
                     (case call clock (getInstanceName src) (\<lambda>s now. DOFS_stat s src) w2 of
                        (Inl e3, w3) \<Rightarrow> (Inl e3, w3)
                      | (Inr st, w3) \<Rightarrow>
                          call clock (getInstanceName dest)
                            (\<lambda>s now. DOFS_writeFileBuffer s dest buf (Some (st_mode st)) now)
                            w3))) \<and>
         (\<forall>e w'. fs_copyFile same clock w src dest cmode = (Inl e, w') \<longrightarrow>
                 only_touched (disks w n) (disks w' n))"
proof -
  have across: "fs_copyFile same clock w src dest cmode = copyFile_across clock w src dest"
    using cross by (simp add: fs_copyFile_def)
  have ens: "ensureParentExists clock w dest =
      (case parent_to_check (getParentPath dest) of
         None \<Rightarrow> (Inr (), w)
       | Some pp \<Rightarrow>
           (case call clock (getInstanceName dest) (\<lambda>s now. DOFS_stat s pp) w of
              (Inr st, w1) \<Rightarrow> (Inr (), w1)
            | (Inl e, w1) \<Rightarrow>
                (case call clock (getInstanceName dest)
                        (\<lambda>s now. DOFS_mkdir s pp True None now) w1 of
                   (Inl e', w2) \<Rightarrow> (Inl e', w2)
                 | (Inr created, w2) \<Rightarrow> (Inr (), w2))))"
  proof (cases "parent_to_check (getParentPath dest)")
    case None
    then show ?thesis by (simp add: ensureParentExists_parent)
  next
    case (Some pp)
    then have eq: "getInstanceName pp = getInstanceName dest"
      using parent by (simp add: parent_in_destination_shard_def)
    show ?thesis
      unfolding ensureParentExists_parent Some option.case eq by (rule refl)
  qed
  have "only_touched (disks w n) (disks w' n)"
    if "fs_copyFile same clock w src dest cmode = (Inl e, w')" for e w'
    using that across copyFile_across_failure_touched [of clock w src dest e w' n] by simp
  then show ?thesis
    using across ens by (simp add: copyFile_across_def)
qed

text \<open>The hypotheses hold for the copy of \<^verbatim>\<open>/Users/alice/x.txt\<close> to
  \<^verbatim>\<open>/Users/bob/notes/x.txt\<close>, which fails at the write because \<^verbatim>\<open>/Users/bob/notes\<close> is a
  file.\<close>

theorem copyFile_across_failure_witness:
  "\<not> never_same (getInstance ''/Users/alice/x.txt'')
       (getInstance ''/Users/bob/notes/x.txt'') \<and>
   parent_in_destination_shard ''/Users/bob/notes/x.txt'' \<and>
   fs_copyFile never_same ticking notes_world ''/Users/alice/x.txt''
       ''/Users/bob/notes/x.txt'' 0 = (Inl ParentDirectoryDoesNotExist, failed_world) \<and>
   only_touched (disks notes_world ''alice'') (disks failed_world ''alice'') \<and>
   only_touched (disks notes_world ''bob'') (disks failed_world ''bob'')"
proof -
  have c: "\<not> never_same (getInstance ''/Users/alice/x.txt'')
        (getInstance ''/Users/bob/notes/x.txt'')"
    by (simp add: never_same_def)
  have p: "parent_in_destination_shard ''/Users/bob/notes/x.txt''"
    by code_simp
  have "fst (fs_copyFile never_same ticking notes_world ''/Users/alice/x.txt''
       ''/Users/bob/notes/x.txt'' 0) = Inl ParentDirectoryDoesNotExist"
    by code_simp
  then have f: "fs_copyFile never_same ticking notes_world ''/Users/alice/x.txt''
       ''/Users/bob/notes/x.txt'' 0 = (Inl ParentDirectoryDoesNotExist, failed_world)"
    unfolding failed_world_def by (metis prod.collapse)
  show ?thesis
    using c p f
      copyFile_across_failure [where same = never_same and src = "''/Users/alice/x.txt''"
        and dest = "''/Users/bob/notes/x.txt''" and clock = ticking and w = notes_world
        and cmode = 0 and n = "''alice''"]
      copyFile_across_failure [where same = never_same and src = "''/Users/alice/x.txt''"
        and dest = "''/Users/bob/notes/x.txt''" and clock = ticking and w = notes_world
        and cmode = 0 and n = "''bob''"]
    by simp
qed

text \<open>Where the parent path of the destination names another shard, as \<^verbatim>\<open>/Users\<close> does for
  the destination \<^verbatim>\<open>/Users/zed\<close>, \<^verbatim>\<open>ensureParentExists\<close> creates the parent in that other
  shard, here \<^verbatim>\<open>default\<close>, and the write in the destination shard fails for want of it.\<close>

lemma parent_made_in_other_shard:
  "\<not> parent_in_destination_shard ''/Users/zed'' \<and>
   disks alice_bob_world ''default'' = [] \<and>
   fst (fs_copyFile never_same ticking alice_bob_world ''/Users/alice/x.txt''
          ''/Users/zed'' 0) = Inl ParentDirectoryDoesNotExist \<and>
   map path (disks (snd (fs_copyFile never_same ticking alice_bob_world
                           ''/Users/alice/x.txt'' ''/Users/zed'' 0)) ''default'') =
     [''/Users''] \<and>
   disks (snd (fs_copyFile never_same ticking alice_bob_world
                 ''/Users/alice/x.txt'' ''/Users/zed'' 0)) ''zed'' = []"
  by code_simp

text \<open>The claim as the specification states it fails. In the run above the failure
  comes after the read, and the source table is not as it was: the access time of the
  source went from 2 to 6. And when the read itself fails because the source is missing,
  the directories for \<^verbatim>\<open>/Users/carol/d/x.txt\<close> are there already: the parent is
  ensured before the read, not after it.\<close>

theorem copyFile_across_failure_counterexample:
  "\<not> never_same (getInstance ''/Users/alice/x.txt'')
       (getInstance ''/Users/bob/notes/x.txt'') \<and>
   fst (fs_copyFile never_same ticking notes_world ''/Users/alice/x.txt''
          ''/Users/bob/notes/x.txt'' 0) = Inl ParentDirectoryDoesNotExist \<and>
   map atime (disks notes_world ''alice'') = [1, 1, 2] \<and>
   map atime (disks failed_world ''alice'') = [1, 1, 6] \<and>
   \<not> never_same (getInstance ''/Users/alice/missing.txt'')
       (getInstance ''/Users/carol/d/x.txt'') \<and>
   fst (fs_copyFile never_same ticking alice_bob_world ''/Users/alice/missing.txt''
          ''/Users/carol/d/x.txt'' 0) = Inl FileDoesNotExist \<and>
   disks alice_bob_world ''carol'' = [] \<and>
   map path (disks (snd (fs_copyFile never_same ticking alice_bob_world
                           ''/Users/alice/missing.txt'' ''/Users/carol/d/x.txt'' 0)) ''carol'') =
     [''/Users'', ''/Users/carol'', ''/Users/carol/d'']"
  by code_simp

text \<open>
  Claim C6 (as amended). When a cross-shard \<^verbatim>\<open>copyFile(src, dest)\<close> (the two paths name
  different shards, and the two stubs are not the same object) of an existing file
  succeeds, the destination shard holds an entry at the normalized \<^verbatim>\<open>dest\<close> with the bytes
  of the source and, the mode of the source not being 0, with its mode; and the source row
  has every field as before except the access time, which is the time of the read.
  (\<^verbatim>\<open>writeFileBuffer\<close> replaces the mode 0 by its default; by \<open>mode_or_nonzero\<close> neither it
  nor \<^verbatim>\<open>mkdir\<close> stores the mode 0.)
\<close>

theorem copyFile_across_success:
  assumes cross: "\<not> same (getInstance src) (getInstance dest)"
    and names: "getInstanceName src \<noteq> getInstanceName dest"
    and src_row: "select_path (disks w (getInstanceName src)) src = Some f"
    and nz: "mode f \<noteq> 0"
    and ok: "fs_copyFile same clock w src dest cmode = (Inr (), w')"
  shows "(\<exists>d. select_path (disks w' (getInstanceName dest)) (normalizePath dest) = Some d \<and>
              content d = Some (case content f of None \<Rightarrow> [] | Some b \<Rightarrow> b) \<and>
              mode d = mode f) \<and>
         type f = File \<and>
         select_path (disks w' (getInstanceName src)) src =
           Some (f\<lparr>atime := clock (calls (snd (ensureParentExists clock w dest)))\<rparr>)"
proof -
  let ?sn = "getInstanceName src" and ?dn = "getInstanceName dest"
  have across: "copyFile_across clock w src dest = (Inr (), w')"
    using ok cross by (simp add: fs_copyFile_def)
  obtain r1 w1 where e1: "ensureParentExists clock w dest = (r1, w1)"
    by (cases "ensureParentExists clock w dest")
  have f1: "select_path (disks w1 ?sn) src = Some f"
    using ensureParentExists_appends [of clock w dest ?sn] e1 src_row
    by (auto simp: select_path_append)
  define rd where "rd = DOFS_readFileBuffer (disks w1 ?sn) src (clock (calls w1))"
  define w2 where "w2 = \<lparr> disks = (disks w1)(?sn := snd rd), calls = Suc (calls w1) \<rparr>"
  define sr where "sr = DOFS_stat (disks w2 ?sn) src"
  define w3 where "w3 = \<lparr> disks = (disks w2)(?sn := snd sr), calls = Suc (calls w2) \<rparr>"
  have d3: "disks w3 = disks w2" by (simp add: w3_def sr_def stat_store)
  from across e1 obtain buf st where rd: "fst rd = Inr buf" and sr: "fst sr = Inr st"
    and wr: "fst (DOFS_writeFileBuffer (disks w3 ?dn) dest buf (Some (st_mode st))
                    (clock (calls w3))) = Inr ()"
    and w': "disks w' = (disks w3)(?dn := snd (DOFS_writeFileBuffer (disks w3 ?dn) dest buf
                    (Some (st_mode st)) (clock (calls w3))))"
    unfolding copyFile_across_def call_eq
    by (auto simp: w2_def rd_def w3_def sr_def split: sum.splits prod.splits)
  from readFileBuffer_success [OF f1] rd
  have buf: "buf = (case content f of None \<Rightarrow> [] | Some b \<Rightarrow> b)"
    and is_file: "type f = File"
    and f2: "select_path (disks w2 ?sn) src = Some (f\<lparr>atime := clock (calls w1)\<rparr>)"
    by (auto simp: rd_def w2_def)
  from stat_success [OF f2] sr have md: "st_mode st = mode f" by (simp add: sr_def)
  have src_after: "select_path (disks w' ?sn) src = Some (f\<lparr>atime := clock (calls w1)\<rparr>)"
    using w' names d3 f2 by simp
  obtain s' where s': "DOFS_writeFileBuffer (disks w3 ?dn) dest buf (Some (st_mode st))
                    (clock (calls w3)) = (Inr (), s')"
    using wr by (cases "DOFS_writeFileBuffer (disks w3 ?dn) dest buf (Some (st_mode st))
                    (clock (calls w3))") auto
  from writeFileBuffer_success [OF s'] obtain d where
    d: "select_path s' (normalizePath dest) = Some d" "content d = Some buf"
       "mode d = mode_or (Some (st_mode st)) 438"
    by blast
  have "select_path (disks w' ?dn) (normalizePath dest) = Some d"
    using w' s' d by simp
  moreover have "mode d = mode f" using d md nz by (simp add: mode_or_def)
  ultimately show ?thesis using d buf is_file src_after e1 by auto
qed

theorem copyFile_across_success_witness:
  "getInstanceName ''/Users/alice/x.txt'' \<noteq> getInstanceName ''/Users/bob/x.txt'' \<and>
   \<not> never_same (getInstance ''/Users/alice/x.txt'')
       (getInstance ''/Users/bob/x.txt'') \<and>
   fs_copyFile never_same ticking alice_bob_world ''/Users/alice/x.txt''
       ''/Users/bob/x.txt'' 0 = (Inr (), copied_world) \<and>
   (\<exists>d. select_path (disks copied_world ''bob'') ''/Users/bob/x.txt'' = Some d \<and>
        content d = Some [104, 105] \<and> mode d = 438) \<and>
   select_path (disks copied_world ''alice'') ''/Users/alice/x.txt'' =
     Some \<lparr> path = ''/Users/alice/x.txt'', parent_path = Some ''/Users/alice'',
            name = ''x.txt'', type = File, content = Some [104, 105], size_bytes = 2,
            mode = 438, uid = 0, gid = 0, mtime = 2, ctime = 2, atime = 5 \<rparr>"
proof -
  have c: "\<not> never_same (getInstance ''/Users/alice/x.txt'')
        (getInstance ''/Users/bob/x.txt'')"
    by (simp add: getInstance_def getInstanceName_def never_same_def)
  have n: "getInstanceName ''/Users/alice/x.txt'' = ''alice''"
    "getInstanceName ''/Users/bob/x.txt'' = ''bob''"
    "normalizePath ''/Users/bob/x.txt'' = ''/Users/bob/x.txt''"
    by code_simp+
  have r: "select_path (disks alice_bob_world (getInstanceName ''/Users/alice/x.txt''))
        ''/Users/alice/x.txt'' =
     Some \<lparr> path = ''/Users/alice/x.txt'', parent_path = Some ''/Users/alice'',
            name = ''x.txt'', type = File, content = Some [104, 105], size_bytes = 2,
            mode = 438, uid = 0, gid = 0, mtime = 2, ctime = 2, atime = 2 \<rparr>"
    by code_simp
  have t: "ticking (calls (snd (ensureParentExists ticking alice_bob_world
        ''/Users/bob/x.txt''))) = 5"
    by code_simp
  have "fst (fs_copyFile never_same ticking alice_bob_world ''/Users/alice/x.txt''
       ''/Users/bob/x.txt'' 0) = Inr ()"
    by code_simp
  then have ok: "fs_copyFile never_same ticking alice_bob_world ''/Users/alice/x.txt''
       ''/Users/bob/x.txt'' 0 = (Inr (), copied_world)"
    unfolding copied_world_def by (metis prod.collapse)
  show ?thesis
    using c ok copyFile_across_success [OF c _ r _ ok] n t by simp
qed

text \<open>The claim as the specification states it fails: the successful copy above leaves the
  access time of the source at 5 where it was 2.\<close>

theorem copyFile_across_atime_counterexample:
  "\<not> never_same (getInstance ''/Users/alice/x.txt'')
       (getInstance ''/Users/bob/x.txt'') \<and>
   fst (fs_copyFile never_same ticking alice_bob_world ''/Users/alice/x.txt''
          ''/Users/bob/x.txt'' 0) = Inr () \<and>
   map_option atime (select_path (disks alice_bob_world ''alice'') ''/Users/alice/x.txt'') =
     Some 2 \<and>
   map_option atime (select_path (disks copied_world ''alice'') ''/Users/alice/x.txt'') =
     Some 5"
  by code_simp

text \<open>
  Claim C7 (as amended). A \<^verbatim>\<open>writeFile\<close> that creates a new entry and is given no mode
  creates it with the mode \<^verbatim>\<open>0o666\<close>, which is 438.
\<close>

theorem writeFile_default_mode:
  assumes "select_path s (normalizePath p) = None"
    and "write_mode options = None"
    and "DOFS_writeFile encode s p d options now = (Inr (), s')"
  shows "\<exists>r. select_path s' (normalizePath p) = Some r \<and> type r = File \<and> mode r = 438"
proof -
  obtain b where b: "DOFS_writeFileBuffer s p b None now = (Inr (), s')"
    using assms by (cases d) (auto simp: DOFS_writeFile_def)
  have ok: "\<not> parent_not_directory s (getParentPath (normalizePath p))"
    using b writeFileBuffer_fails [of s p b None now] by auto
  from writeFileBuffer_create [OF ok assms(1), of b None now] b
  show ?thesis
    using assms(1) by (auto simp: select_path_append select_path_single mode_or_def)
qed

theorem writeFile_default_mode_witness:
  "select_path tmp_store (normalizePath ''/tmp/g'') = None \<and>
   write_mode (WriteEncoding ''utf8'') = None \<and>
   fst (DOFS_writeFile ascii_encode tmp_store ''/tmp/g'' (StringData ''hi'')
          (WriteEncoding ''utf8'') 3) = Inr () \<and>
   (\<exists>r. select_path
          (snd (DOFS_writeFile ascii_encode tmp_store ''/tmp/g'' (StringData ''hi'')
                  (WriteEncoding ''utf8'') 3))
          (normalizePath ''/tmp/g'') = Some r \<and> type r = File \<and> mode r = 438)"
proof -
  have a: "select_path tmp_store (normalizePath ''/tmp/g'') = None" by code_simp
  have b: "write_mode (WriteEncoding ''utf8'') = None" by simp
  have c: "fst (DOFS_writeFile ascii_encode tmp_store ''/tmp/g'' (StringData ''hi'')
          (WriteEncoding ''utf8'') 3) = Inr ()"
    by code_simp
  then have d: "DOFS_writeFile ascii_encode tmp_store ''/tmp/g'' (StringData ''hi'')
      (WriteEncoding ''utf8'') 3 =
      (Inr (), snd (DOFS_writeFile ascii_encode tmp_store ''/tmp/g'' (StringData ''hi'')
                      (WriteEncoding ''utf8'') 3))"
    by (metis prod.collapse)
  show ?thesis
    using a b c writeFile_default_mode [OF a b d] by simp
qed

text \<open>The claim as the specification states it fails: the file that \<^verbatim>\<open>writeFile\<close> creates
  in the empty table, given no mode, has the mode 438, and \<^verbatim>\<open>0o644\<close> is 420.\<close>

theorem writeFile_mode_counterexample:
  "select_path [] (normalizePath ''/f'') = None \<and>
   DOFS_writeFile ascii_encode [] ''/f'' (ArrayBufferData [104, 105]) NoWriteOptions 2 =
     (Inr (), [\<lparr> path = ''/f'', parent_path = Some ''/'', name = ''f'', type = File,
                 content = Some [104, 105], size_bytes = 2, mode = 438, uid = 0, gid = 0,
                 mtime = 2, ctime = 2, atime = 2 \<rparr>]) \<and>
   (438 :: nat) \<noteq> 420"
  by code_simp

text \<open>
  Claim C8 (as amended). A \<^verbatim>\<open>writeFile(p, bytes)\<close> whose parent check passes (the parent of
  \<open>p\<close> is the root or an existing directory) succeeds; where an entry exists at \<open>p\<close>, it
  keeps the creation time (and every other field) of the entry and sets its content, size,
  mode, modification time and access time; where none exists, the entry it creates has
  all three times set to the current time. The mode is the one given, or \<^verbatim>\<open>0o666\<close> when
  none or 0 is given.
\<close>

theorem writeFile_timestamps:
  assumes parent: "\<not> parent_not_directory s (getParentPath (normalizePath p))"
    and d: "d = ArrayBufferData bytes \<or> d = Uint8ArrayData bytes"
  shows "\<exists>s'. DOFS_writeFile encode s p d options now = (Inr (), s') \<and>
     (case select_path s (normalizePath p) of
        Some existing \<Rightarrow>
          select_path s' (normalizePath p) =
            Some (existing\<lparr>content := Some bytes, size_bytes := length bytes,
                           mode := (case options of
                                      NoWriteOptions \<Rightarrow> 438
                                    | WriteEncoding enc \<Rightarrow> 438
                                    | WriteOptions enc None \<Rightarrow> 438
                                    | WriteOptions enc (Some m) \<Rightarrow> if m = 0 then 438 else m),
                           mtime := now, atime := now\<rparr>)
      | None \<Rightarrow>
          (\<exists>r. select_path s' (normalizePath p) = Some r \<and> type r = File \<and>
               content r = Some bytes \<and> size_bytes r = length bytes \<and>
               mode r = (case options of
                           NoWriteOptions \<Rightarrow> 438
                         | WriteEncoding enc \<Rightarrow> 438
                         | WriteOptions enc None \<Rightarrow> 438
                         | WriteOptions enc (Some m) \<Rightarrow> if m = 0 then 438 else m) \<and>
               mtime r = now \<and> ctime r = now \<and> atime r = now))"
proof -
  have md: "mode_or (write_mode options) 438 =
      (case options of
         NoWriteOptions \<Rightarrow> 438
       | WriteEncoding enc \<Rightarrow> 438
       | WriteOptions enc None \<Rightarrow> 438
       | WriteOptions enc (Some m) \<Rightarrow> if m = 0 then 438 else m)"
    by (simp add: mode_or_def split: write_options.split option.split)
  show ?thesis
  proof (cases "select_path s (normalizePath p)")
    case None
    show ?thesis
      using writeFileBuffer_create [OF parent None, of bytes "write_mode options" now]
        writeFile_bytes [OF d, of encode s p options now] None
      by (simp add: select_path_append select_path_single md)
  next
    case (Some existing)
    show ?thesis
      using writeFileBuffer_overwrite [OF parent Some, of bytes "write_mode options" now]
        writeFile_bytes [OF d, of encode s p options now] Some
      by (simp add: select_path_update_same md)
  qed
qed

theorem writeFile_timestamps_witness:
  "\<not> parent_not_directory tmp_store (getParentPath (normalizePath ''/tmp/f'')) \<and>
   select_path tmp_store (normalizePath ''/tmp/f'') =
     Some \<lparr> path = ''/tmp/f'', parent_path = Some ''/tmp'', name = ''f'', type = File,
            content = Some [104, 105], size_bytes = 2, mode = 438, uid = 0, gid = 0,
            mtime = 2, ctime = 2, atime = 2 \<rparr> \<and>
   (\<exists>s'. DOFS_writeFile ascii_encode tmp_store ''/tmp/f'' (Uint8ArrayData [1, 2, 3])
            (WriteOptions None (Some 384)) 9 = (Inr (), s') \<and>
         select_path s' (normalizePath ''/tmp/f'') =
           Some \<lparr> path = ''/tmp/f'', parent_path = Some ''/tmp'', name = ''f'', type = File,
                  content = Some [1, 2, 3], size_bytes = 3, mode = 384, uid = 0, gid = 0,
                  mtime = 9, ctime = 2, atime = 9 \<rparr>)"
proof -
  have a: "\<not> parent_not_directory tmp_store (getParentPath (normalizePath ''/tmp/f''))"
    by code_simp
  have b: "select_path tmp_store (normalizePath ''/tmp/f'') =
      Some \<lparr> path = ''/tmp/f'', parent_path = Some ''/tmp'', name = ''f'', type = File,
             content = Some [104, 105], size_bytes = 2, mode = 438, uid = 0, gid = 0,
             mtime = 2, ctime = 2, atime = 2 \<rparr>"
    by code_simp
  show ?thesis
    using a b
      writeFile_timestamps [OF a, where d = "Uint8ArrayData [1, 2, 3]" and bytes = "[1, 2, 3]"
        and encode = ascii_encode and options = "WriteOptions None (Some 384)" and now = 9]
    by (simp add: numeral_3_eq_3)
qed

text \<open>The claim as the specification states it fails where the entry exists and its parent
  is no directory: in the table with the files \<^verbatim>\<open>/d/f\<close> and \<^verbatim>\<open>/d\<close>, the entry \<^verbatim>\<open>/d/f\<close>
  exists, and \<^verbatim>\<open>writeFile("/d/f", bytes)\<close> throws at the parent check and leaves content,
  size and times of the entry as they were.\<close>

theorem writeFile_orphan_counterexample:
  "fst (DOFS_mkdir [] ''/d'' False None 1) = Inr (Some ''/d'') \<and>
   fst (DOFS_writeFileBuffer (snd (DOFS_mkdir [] ''/d'' False None 1)) ''/d/f'' [1] None 2) =
     Inr () \<and>
   fst (DOFS_copyFile
          (snd (DOFS_writeFileBuffer (snd (DOFS_mkdir [] ''/d'' False None 1))
                  ''/d/f'' [1] None 2))
          ''/d/f'' ''/d'' 0 3) = Inr () \<and>
   map path orphan_store = [''/d/f'', ''/d''] \<and>
   map type orphan_store = [File, File] \<and>
   select_path orphan_store (normalizePath ''/d/f'') =
     Some \<lparr> path = ''/d/f'', parent_path = Some ''/d'', name = ''f'', type = File,
            content = Some [1], size_bytes = 1, mode = 438, uid = 0, gid = 0,
            mtime = 2, ctime = 2, atime = 2 \<rparr> \<and>
   fst (DOFS_writeFile ascii_encode orphan_store ''/d/f'' (ArrayBufferData [104, 105])
          NoWriteOptions 4) = Inl ParentDirectoryDoesNotExist \<and>
   select_path
     (snd (DOFS_writeFile ascii_encode orphan_store ''/d/f'' (ArrayBufferData [104, 105])
             NoWriteOptions 4))
     (normalizePath ''/d/f'') =
     Some \<lparr> path = ''/d/f'', parent_path = Some ''/d'', name = ''f'', type = File,
            content = Some [1], size_bytes = 1, mode = 438, uid = 0, gid = 0,
            mtime = 2, ctime = 2, atime = 2 \<rparr>"
  by code_simp

text \<open>
  Claim C9. \<^verbatim>\<open>writeFile(p, bytes)\<close> followed by \<^verbatim>\<open>readFile(p)\<close> without an encoding should
  return the bytes, for every \<open>p\<close> whose parent is an existing directory. It does for a
  normalized \<open>p\<close> that no directory occupies (\<open>write_then_read_normalized\<close>). But
  \<^verbatim>\<open>writeFileBuffer\<close> stores the file under the normalized path and \<^verbatim>\<open>readFileBuffer\<close>
  looks the path up as it is given: after \<^verbatim>\<open>mkdir("/tmp")\<close>, \<^verbatim>\<open>writeFile("/tmp//f", bytes)\<close>
  succeeds and \<^verbatim>\<open>readFile("/tmp//f")\<close> fails, for the exported functions as for the methods.
\<close>

theorem write_then_read_unnormalized:
  "fst (fs_mkdir ticking empty_world ''/tmp'' False None) = Inr (Some ''/tmp'') \<and>
   fst (fs_writeFile ascii_encode ticking
          (snd (fs_mkdir ticking empty_world ''/tmp'' False None))
          ''/tmp//f'' (ArrayBufferData [104, 105]) NoWriteOptions) = Inr () \<and>
   fst (fs_readFile ascii_decode ticking
          (snd (fs_writeFile ascii_encode ticking
                  (snd (fs_mkdir ticking empty_world ''/tmp'' False None))
                  ''/tmp//f'' (ArrayBufferData [104, 105]) NoWriteOptions))
          ''/tmp//f'' NoReadOptions) = Inl FileDoesNotExist \<and>
   fst (DOFS_writeFile ascii_encode (snd (DOFS_mkdir [] ''/tmp'' False None 1)) ''/tmp//f''
          (ArrayBufferData [104, 105]) NoWriteOptions 2) = Inr () \<and>
   fst (DOFS_readFile ascii_decode
          (snd (DOFS_writeFile ascii_encode (snd (DOFS_mkdir [] ''/tmp'' False None 1))
                  ''/tmp//f'' (ArrayBufferData [104, 105]) NoWriteOptions 2))
          ''/tmp//f'' NoReadOptions 3) = Inl FileDoesNotExist"
  by code_simp

text \<open>
  Claim C10. \<^verbatim>\<open>stat\<close> never changes the table: whether it returns the metadata of the
  entry or fails because there is no entry, the table it leaves is the table it was given,
  so every field of every row, the access time included, is as before.
\<close>

theorem stat_never_mutates:
  "snd (DOFS_stat s p) = s \<and>
   (fst (DOFS_stat s p) = Inl FileDoesNotExist \<longleftrightarrow> select_path s p = None) \<and>
   disks (snd (fs_stat clock w p)) = disks w"
  by (simp add: stat_world) (simp add: DOFS_stat_def split: option.split)

end
